theory Spec2Isabelle
  imports Main "HOL-Library.AList"
begin

section \<open>Values of the host language\<close>

text \<open>
  The program is TypeScript. Strings are modelled as \<open>string\<close> (the models below only
  inspect ASCII characters: hex digits, decimal digits, \<open>:\<close>, \<open>;\<close>, \<open>#\<close>, newline).
  A number is an integer or \<open>NaN\<close>: the counters and offsets of this program are small
  integers, far below the range where a double stops being exact, and \<open>NaN\<close> is what the
  program gets from \<open>parseInt\<close> on a non-number and from incrementing a missing counter.
\<close>

datatype jsnum = NaN | Num int

datatype error =
    UnknownProgramCounter nat
  | UnknownInstructionIndex nat
  | UnknownAddress
  | NoSourceMap
  | NoPathForSource
  | TraceInconsistency
  | TypeError
  | SyntaxError

text \<open>\<open>x++\<close> on a number, and on \<open>undefined\<close> (a missing property) or \<open>NaN\<close>.\<close>

fun increment :: "jsnum option \<Rightarrow> jsnum" where
  "increment (Some (Num n)) = Num (n + 1)"
| "increment (Some NaN) = NaN"
| "increment None = NaN"

text \<open>\<open>xs[i]\<close> on an array: \<open>undefined\<close> out of range.\<close>

definition at :: "'a list \<Rightarrow> nat \<Rightarrow> 'a option" where
  "at xs i = (if i < length xs then Some (xs ! i) else None)"

text \<open>\<open>str.split(c)\<close> for a one-character separator: always at least one piece.\<close>

fun split :: "char \<Rightarrow> string \<Rightarrow> string list" where
  "split c [] = [[]]"
| "split c (x # xs) =
     (if x = c then [] # split c xs
      else (case split c xs of p # ps \<Rightarrow> (x # p) # ps | [] \<Rightarrow> [[x]]))"

definition digitVal :: "char \<Rightarrow> nat option" where
  "digitVal c =
     (let n = (of_char c :: nat) in
      if 48 \<le> n \<and> n \<le> 57 then Some (n - 48)
      else if 97 \<le> n \<and> n \<le> 102 then Some (n - 87)
      else if 65 \<le> n \<and> n \<le> 70 then Some (n - 55)
      else None)"

definition isDigit :: "nat \<Rightarrow> char \<Rightarrow> bool" where
  "isDigit radix c = (case digitVal c of None \<Rightarrow> False | Some d \<Rightarrow> d < radix)"

definition digitsValue :: "nat \<Rightarrow> string \<Rightarrow> int" where
  "digitsValue radix ds = foldl (\<lambda>acc c. acc * int radix + int (the (digitVal c))) 0 ds"

definition isWhite :: "char \<Rightarrow> bool" where
  "isWhite c = (c \<in> set [CHR '' '', CHR 0x09, CHR 0x0A, CHR 0x0B, CHR 0x0C, CHR 0x0D])"

text \<open>
  \<open>parseInt(s)\<close> with no radix: leading white space is skipped, then an optional sign, then
  an optional \<open>0x\<close> that selects radix 16; the longest run of digits is read, and the result is
  \<open>NaN\<close> when that run is empty.
\<close>

definition parseDigits :: "int \<Rightarrow> nat \<Rightarrow> string \<Rightarrow> jsnum" where
  "parseDigits sign radix s =
     (let ds = takeWhile (isDigit radix) s in
      if ds = [] then NaN else Num (sign * digitsValue radix ds))"

fun parseUnsigned :: "int \<Rightarrow> string \<Rightarrow> jsnum" where
  "parseUnsigned sign (a # b # rest) =
     (if a = CHR ''0'' \<and> (b = CHR ''x'' \<or> b = CHR ''X'') then parseDigits sign 16 rest
      else parseDigits sign 10 (a # b # rest))"
| "parseUnsigned sign s = parseDigits sign 10 s"

definition parseInt :: "string \<Rightarrow> jsnum" where
  "parseInt s =
     (case dropWhile isWhite s of
        [] \<Rightarrow> NaN
      | c # rest \<Rightarrow>
          if c = CHR ''-'' then parseUnsigned (- 1) rest
          else if c = CHR ''+'' then parseUnsigned 1 rest
          else parseUnsigned 1 (c # rest))"

section \<open>SourceMap\<close>

record SourceRange =
  r_start :: jsnum
  r_length :: jsnum
  r_index :: jsnum

record CompilerSource =
  cs_path :: string
  cs_content :: string
  cs_id :: nat

record SourceMap =
  fqdn :: string
  sm_bytecode :: string
  pcToInstructionIndices :: "nat \<rightharpoonup> nat"
  instructionIndexToRanges :: "nat \<rightharpoonup> SourceRange"
  compilerSources :: "CompilerSource list"

record CompilerOutputCode =
  co_object :: string
  co_sourceMap :: string

definition pcToInstructionIndex :: "SourceMap \<Rightarrow> nat \<Rightarrow> error + nat" where
  "pcToInstructionIndex m pc =
     (case pcToInstructionIndices m pc of None \<Rightarrow> Inl (UnknownProgramCounter pc) | Some i \<Rightarrow> Inr i)"

definition instructionIndexToRange :: "SourceMap \<Rightarrow> nat \<Rightarrow> error + SourceRange" where
  "instructionIndexToRange m i =
     (case instructionIndexToRanges m i of None \<Rightarrow> Inl (UnknownInstructionIndex i) | Some r \<Rightarrow> Inr r)"

definition pcToRange :: "SourceMap \<Rightarrow> nat \<Rightarrow> error + SourceRange" where
  "pcToRange m pc =
     (case pcToInstructionIndex m pc of Inl e \<Rightarrow> Inl e | Inr i \<Rightarrow> instructionIndexToRange m i)"

subsection \<open>buildPCToInstructionIndices\<close>

text \<open>
  \<open>Buffer.from(bytecode, 'hex')\<close>: two hex digits per byte, stopping at the first pair that
  is not hex; a trailing single character is dropped.
\<close>

fun hexDecode :: "string \<Rightarrow> nat list" where
  "hexDecode (a # b # rest) =
     (case (digitVal a, digitVal b) of
        (Some x, Some y) \<Rightarrow> (16 * x + y) # hexDecode rest
      | _ \<Rightarrow> [])"
| "hexDecode _ = []"

text \<open>
  \<open>instructionLength(bytes[pc])\<close>: the argument is \<open>undefined\<close> when \<open>pc\<close> is past the
  decoded bytes, both comparisons are then false and the length is 1.
\<close>

fun instructionLength :: "nat option \<Rightarrow> nat" where
  "instructionLength (Some instruction) =
     (if instruction \<ge> 0x60 \<and> instruction \<le> 0x7f then instruction - 0x60 + 2 else 1)"
| "instructionLength None = 1"

lemma instructionLength_pos: "0 < instructionLength b"
  by (cases b) auto

text \<open>
  The loop \<open>for (let pc = 0, i = 0; pc < bytecode.length; i++)\<close>. Its bound is the length of
  the hex string, its index reads the decoded bytes.
\<close>

function pcLoop :: "string \<Rightarrow> nat list \<Rightarrow> nat \<Rightarrow> nat \<Rightarrow> (nat \<rightharpoonup> nat) \<Rightarrow> (nat \<rightharpoonup> nat)" where
  "pcLoop bytecode bytes pc i tbl =
     (if pc < length bytecode
      then pcLoop bytecode bytes (pc + instructionLength (at bytes pc)) (i + 1) (tbl(pc \<mapsto> i))
      else tbl)"
  by pat_completeness auto
termination
  by (relation "measure (\<lambda>(bytecode, bytes, pc, i, tbl). length bytecode - pc)")
     (auto simp: instructionLength_pos intro: diff_less_mono2)

definition buildPCToInstructionIndices :: "string \<Rightarrow> (nat \<rightharpoonup> nat)" where
  "buildPCToInstructionIndices bytecode = pcLoop bytecode (hexDecode bytecode) 0 0 Map.empty"

subsection \<open>parse\<close>

record mapState =
  st_s :: jsnum
  st_l :: jsnum
  st_f :: jsnum

text \<open>One field of an entry: \<open>x ? parseInt(x) : state.x\<close>, where \<open>x\<close> is \<open>undefined\<close> or a string.\<close>

definition field :: "string option \<Rightarrow> jsnum \<Rightarrow> jsnum" where
  "field x old = (case x of None \<Rightarrow> old | Some t \<Rightarrow> if t = [] then old else parseInt t)"

definition nextState :: "mapState \<Rightarrow> string \<Rightarrow> mapState" where
  "nextState state entry =
     (let fs = split CHR '':'' entry in
      \<lparr> st_s = field (at fs 0) (st_s state),
        st_l = field (at fs 1) (st_l state),
        st_f = field (at fs 2) (st_f state) \<rparr>)"

definition rangeOf :: "mapState \<Rightarrow> SourceRange" where
  "rangeOf state = \<lparr> r_start = st_s state, r_length = st_l state, r_index = st_f state \<rparr>"

fun parseLoop :: "string list \<Rightarrow> nat \<Rightarrow> mapState \<Rightarrow> (nat \<rightharpoonup> SourceRange) \<Rightarrow> (nat \<rightharpoonup> SourceRange)" where
  "parseLoop [] index state ranges = ranges"
| "parseLoop (entry # entries) index state ranges =
     (let state' = nextState state entry
      in parseLoop entries (index + 1) state' (ranges(index \<mapsto> rangeOf state')))"

definition parse :: "CompilerOutputCode \<Rightarrow> CompilerSource list \<Rightarrow> string option \<Rightarrow> SourceMap" where
  "parse code sources fq =
     \<lparr> fqdn = (case fq of None \<Rightarrow> ''unknown original source''
               | Some n \<Rightarrow> if n = [] then ''unknown original source'' else n),
       sm_bytecode = co_object code,
       pcToInstructionIndices = buildPCToInstructionIndices (co_object code),
       instructionIndexToRanges =
         parseLoop (split CHR '';'' (co_sourceMap code)) 0 \<lparr> st_s = Num 0, st_l = Num 0, st_f = Num 0 \<rparr> Map.empty,
       compilerSources = sources \<rparr>"

text \<open>
  The specification's reading of the source map, used to compare with \<open>parseLoop\<close>: a
  field that is missing or empty inherits the previous value, any other field is parsed;
  \<open>specStates\<close> lists the state after each entry.
\<close>

definition inheritField :: "string list \<Rightarrow> nat \<Rightarrow> jsnum \<Rightarrow> jsnum" where
  "inheritField parts j prev =
     (if j < length parts \<and> parts ! j \<noteq> [] then parseInt (parts ! j) else prev)"

fun specStates :: "mapState \<Rightarrow> string list \<Rightarrow> mapState list" where
  "specStates state [] = []"
| "specStates state (entry # entries) =
     (let parts = split CHR '':'' entry;
          state' = \<lparr> st_s = inheritField parts 0 (st_s state),
                     st_l = inheritField parts 1 (st_l state),
                     st_f = inheritField parts 2 (st_f state) \<rparr>
      in state' # specStates state' entries)"

definition initialState :: mapState where
  "initialState = \<lparr> st_s = Num 0, st_l = Num 0, st_f = Num 0 \<rparr>"

section \<open>Sources\<close>

text \<open>
  The objects used as dictionaries are maps; \<open>bytecodeToSourceMaps\<close>, which the program
  enumerates with \<open>for ... in\<close>, is an association list in enumeration order.
\<close>

record Sources =
  addressToBytecodes :: "string \<rightharpoonup> string"
  bytecodeToSourceMaps :: "(string \<times> SourceMap) list"
  bytecodeAndIndexToPath :: "string \<rightharpoonup> (nat \<rightharpoonup> string)"
  pathToCompilerSources :: "string \<rightharpoonup> CompilerSource"
  unique :: nat

text \<open>The decimal digits of a number, as the template literal \<open>`${i}`\<close> prints them.\<close>

definition digitChar :: "nat \<Rightarrow> char" where
  "digitChar d = ''0123456789'' ! d"

fun showNat :: "nat \<Rightarrow> string" where
  "showNat n =
     (if n < 10 then [digitChar n] else showNat (n div 10) @ [digitChar (n mod 10)])"

declare showNat.simps [simp del]

definition remapPath :: "string \<Rightarrow> nat \<Rightarrow> string" where
  "remapPath p i = p @ '':'' @ showNat i"

text \<open>
  The search \<open>for (let i = 0; i < this.unique; i++)\<close> over the remappings of a path. It
  reads \<open>maybeExisting.input.content\<close> with no test that \<open>p2cs[maybePath]\<close> exists.
\<close>

function findRemap :: "(string \<rightharpoonup> CompilerSource) \<Rightarrow> CompilerSource \<Rightarrow> nat \<Rightarrow> nat \<Rightarrow> error + string option" where
  "findRemap p2cs src uniq i =
     (if i < uniq then
        (case p2cs (remapPath (cs_path src) i) of
           None \<Rightarrow> Inl TypeError
         | Some maybeExisting \<Rightarrow>
             if cs_content maybeExisting = cs_content src
             then Inr (Some (remapPath (cs_path src) i))
             else findRemap p2cs src uniq (i + 1))
      else Inr None)"
  by pat_completeness auto
termination
  by (relation "measure (\<lambda>(p2cs, src, uniq, i). uniq - i)") auto

declare findRemap.simps [simp del]

definition setPath :: "Sources \<Rightarrow> string \<Rightarrow> nat \<Rightarrow> string \<Rightarrow> Sources" where
  "setPath st bytecode ident p =
     st \<lparr> bytecodeAndIndexToPath :=
            (bytecodeAndIndexToPath st)
              (bytecode \<mapsto> (case bytecodeAndIndexToPath st bytecode of
                                None \<Rightarrow> [ident \<mapsto> p]
                              | Some si2p \<Rightarrow> si2p(ident \<mapsto> p))) \<rparr>"

text \<open>The body of the loop of \<open>indexBytecodeToSourceMap\<close>, for one compiler source.\<close>

definition indexSource :: "Sources \<Rightarrow> string \<Rightarrow> CompilerSource \<Rightarrow> error + Sources" where
  "indexSource st bytecode src =
     (case pathToCompilerSources st (cs_path src) of
        None \<Rightarrow>
          Inr ((setPath st bytecode (cs_id src) (cs_path src))
                 \<lparr> pathToCompilerSources := (pathToCompilerSources st)(cs_path src \<mapsto> src) \<rparr>)
      | Some existing \<Rightarrow>
          if cs_content existing = cs_content src
          then Inr (setPath st bytecode (cs_id src) (cs_path src))
          else
            (case findRemap (pathToCompilerSources st) src (unique st) 0 of
               Inl e \<Rightarrow> Inl e
             | Inr (Some p) \<Rightarrow> Inr (setPath st bytecode (cs_id src) p)
             | Inr None \<Rightarrow>
                 (let p = remapPath (cs_path src) (unique st)
                  in Inr ((setPath st bytecode (cs_id src) p)
                            \<lparr> pathToCompilerSources :=
                                 (pathToCompilerSources st)(p \<mapsto> src \<lparr> cs_path := p \<rparr>),
                               unique := unique st + 1 \<rparr>))))"

fun indexSources :: "Sources \<Rightarrow> string \<Rightarrow> CompilerSource list \<Rightarrow> error + Sources" where
  "indexSources st bytecode [] = Inr st"
| "indexSources st bytecode (src # srcs) =
     (case indexSource st bytecode src of
        Inl e \<Rightarrow> Inl e
      | Inr st' \<Rightarrow> indexSources st' bytecode srcs)"

text \<open>
  \<open>indexBytecodeToSourceMap\<close>: \<open>bi2p[bytecode] = bi2p[bytecode] || []\<close> comes first, then
  the loop over \<open>b2s[bytecode].compilerSources\<close>.
\<close>

definition indexBytecodeToSourceMap :: "Sources \<Rightarrow> string \<Rightarrow> error + Sources" where
  "indexBytecodeToSourceMap st bytecode =
     (let st1 = st \<lparr> bytecodeAndIndexToPath :=
                      (bytecodeAndIndexToPath st)
                        (bytecode \<mapsto> (case bytecodeAndIndexToPath st bytecode of
                                          None \<Rightarrow> Map.empty | Some si2p \<Rightarrow> si2p)) \<rparr>
      in case map_of (bytecodeToSourceMaps st) bytecode of
           None \<Rightarrow> Inl TypeError
         | Some m \<Rightarrow> indexSources st1 bytecode (compilerSources m))"

fun initPathsAndPathToCompilerSources :: "Sources \<Rightarrow> string list \<Rightarrow> error + Sources" where
  "initPathsAndPathToCompilerSources st [] = Inr st"
| "initPathsAndPathToCompilerSources st (bytecode # rest) =
     (case indexBytecodeToSourceMap st bytecode of
        Inl e \<Rightarrow> Inl e
      | Inr st' \<Rightarrow> initPathsAndPathToCompilerSources st' rest)"

text \<open>The constructor \<open>new Sources(bytecodeToSourceMaps)\<close>.\<close>

definition newSources :: "(string \<times> SourceMap) list \<Rightarrow> error + Sources" where
  "newSources b2s =
     initPathsAndPathToCompilerSources
       \<lparr> addressToBytecodes = Map.empty,
         bytecodeToSourceMaps = b2s,
         bytecodeAndIndexToPath = Map.empty,
         pathToCompilerSources = Map.empty,
         unique = 0 \<rparr>
       (map fst b2s)"

definition insertAndIndexBytecodeAndSourceMap :: "Sources \<Rightarrow> string \<Rightarrow> SourceMap \<Rightarrow> error + (SourceMap \<times> Sources)" where
  "insertAndIndexBytecodeAndSourceMap st bytecode m =
     (case indexBytecodeToSourceMap
             (st \<lparr> bytecodeToSourceMaps := AList.update bytecode m (bytecodeToSourceMaps st) \<rparr>)
             bytecode of
        Inl e \<Rightarrow> Inl e
      | Inr st' \<Rightarrow> Inr (m, st'))"

text \<open>The two fuzzy rules of \<open>bytecodeToSourceMap\<close>, for one known bytecode.\<close>

definition mismatchOnNonZeroByte :: "string \<Rightarrow> string \<Rightarrow> bool" where
  "mismatchOnNonZeroByte bytecode knownBytecode =
     list_ex (\<lambda>(x, y). x \<noteq> y \<and> y \<noteq> CHR ''0'') (zip bytecode knownBytecode)"

definition fuzzyMatch :: "string \<Rightarrow> string \<Rightarrow> bool" where
  "fuzzyMatch bytecode knownBytecode =
     (if length bytecode = length knownBytecode
      then \<not> mismatchOnNonZeroByte bytecode knownBytecode
      else length bytecode > length knownBytecode \<and> length knownBytecode > 42
           \<and> take (length knownBytecode) bytecode = knownBytecode)"

fun fuzzyLoop :: "Sources \<Rightarrow> string \<Rightarrow> string list \<Rightarrow> error + (SourceMap \<times> Sources)" where
  "fuzzyLoop st bytecode [] = Inl NoSourceMap"
| "fuzzyLoop st bytecode (knownBytecode # rest) =
     (if fuzzyMatch bytecode knownBytecode
      then (case map_of (bytecodeToSourceMaps st) knownBytecode of
              None \<Rightarrow> Inl TypeError
            | Some m \<Rightarrow> insertAndIndexBytecodeAndSourceMap st bytecode m)
      else fuzzyLoop st bytecode rest)"

definition bytecodeToSourceMap :: "Sources \<Rightarrow> string \<Rightarrow> error + (SourceMap \<times> Sources)" where
  "bytecodeToSourceMap st bytecode =
     (case map_of (bytecodeToSourceMaps st) bytecode of
        Some m \<Rightarrow> Inr (m, st)
      | None \<Rightarrow> fuzzyLoop st bytecode (map fst (bytecodeToSourceMaps st)))"

text \<open>\<open>compilerSourcePath(bytecode, sourceIndex)\<close>; the index is a number read from a source map.\<close>

definition compilerSourcePath :: "Sources \<Rightarrow> string \<Rightarrow> jsnum \<Rightarrow> error + string" where
  "compilerSourcePath st bytecode sourceIndex =
     (case bytecodeAndIndexToPath st bytecode of
        None \<Rightarrow> Inl TypeError
      | Some si2p \<Rightarrow>
          (case sourceIndex of
             NaN \<Rightarrow> Inl NoPathForSource
           | Num n \<Rightarrow>
               if n < 0 then Inl NoPathForSource
               else (case si2p (nat n) of None \<Rightarrow> Inl NoPathForSource | Some p \<Rightarrow> Inr p)))"

text \<open>
  The two fuzzy rules in the words of the specification, to compare with \<open>fuzzyMatch\<close>.
\<close>

definition sameLengthRule :: "string \<Rightarrow> string \<Rightarrow> bool" where
  "sameLengthRule b k =
     (length b = length k \<and> (\<forall>i < length b. b ! i = k ! i \<or> k ! i = CHR ''0''))"

definition prefixRule :: "string \<Rightarrow> string \<Rightarrow> bool" where
  "prefixRule b k = (length b > length k \<and> length k > 42 \<and> take (length k) b = k)"

text \<open>
  A compiler source is settled in a state when indexing it again finds its path: the entry
  of its path has its content, or the search over the remappings of its path ends on an
  entry that has. Every source is settled right after it has been indexed.
\<close>

definition settled :: "Sources \<Rightarrow> CompilerSource \<Rightarrow> bool" where
  "settled st src =
     (case pathToCompilerSources st (cs_path src) of
        None \<Rightarrow> False
      | Some existing \<Rightarrow>
          cs_content existing = cs_content src \<or>
          (case findRemap (pathToCompilerSources st) src (unique st) 0 of
             Inr (Some p) \<Rightarrow> True
           | _ \<Rightarrow> False))"

definition sourcesSettled :: "Sources \<Rightarrow> bool" where
  "sourcesSettled st =
     list_all (\<lambda>(k, m). list_all (settled st) (compilerSources m)) (bytecodeToSourceMaps st)"

text \<open>Fixtures: source maps that only carry compiler sources, and small \<open>Sources\<close> inputs.\<close>

definition sourceMapOf :: "string \<Rightarrow> CompilerSource list \<Rightarrow> SourceMap" where
  "sourceMapOf b srcs =
     \<lparr> fqdn = ''unknown original source'', sm_bytecode = b,
       pcToInstructionIndices = Map.empty, instructionIndexToRanges = Map.empty,
       compilerSources = srcs \<rparr>"

definition compilerSource :: "string \<Rightarrow> string \<Rightarrow> nat \<Rightarrow> CompilerSource" where
  "compilerSource p c i = \<lparr> cs_path = p, cs_content = c, cs_id = i \<rparr>"

text \<open>Two compilations that disagree on the contents of two files.\<close>

definition twoCollidingPaths :: "(string \<times> SourceMap) list" where
  "twoCollidingPaths =
     [(''60a0'', sourceMapOf ''60a0''
         [compilerSource ''A.sol'' ''contract A {}'' 0, compilerSource ''B.sol'' ''contract B {}'' 1]),
      (''60b0'', sourceMapOf ''60b0''
         [compilerSource ''A.sol'' ''contract A2 {}'' 0, compilerSource ''B.sol'' ''contract B2 {}'' 1])]"

text \<open>Three sources with the path \<open>A.sol\<close>; the third has the content of the second.\<close>

definition threeVersions :: "(string \<times> SourceMap) list" where
  "threeVersions =
     [(''60a0'', sourceMapOf ''60a0''
         [compilerSource ''A.sol'' ''contract A {}'' 0,
          compilerSource ''A.sol'' ''contract A2 {}'' 1,
          compilerSource ''A.sol'' ''contract A2 {}'' 2])]"

text \<open>One compiled bytecode with two immutable slots left as zero nibbles.\<close>

definition oneContract :: Sources where
  "oneContract =
     \<lparr> addressToBytecodes = Map.empty,
       bytecodeToSourceMaps =
         [(''ab00cd00ef'', sourceMapOf ''ab00cd00ef'' [compilerSource ''A.sol'' ''contract A {}'' 0])],
       bytecodeAndIndexToPath = [''ab00cd00ef'' \<mapsto> [0 \<mapsto> ''A.sol'']],
       pathToCompilerSources = [''A.sol'' \<mapsto> compilerSource ''A.sol'' ''contract A {}'' 0],
       unique = 0 \<rparr>"

text \<open>
  A compiler source whose path is the remapped name of another path: the file \<open>A.sol:0\<close>
  beside two versions of \<open>A.sol\<close>.
\<close>

definition remappedNameTaken :: "(string \<times> SourceMap) list" where
  "remappedNameTaken =
     [(''60a0'', sourceMapOf ''60a0''
         [compilerSource ''A.sol:0'' ''library L {}'' 0, compilerSource ''A.sol'' ''contract A {}'' 1]),
      (''60b1'', sourceMapOf ''60b1'' [compilerSource ''A.sol'' ''contract A2 {}'' 0])]"

subsection \<open>Addresses\<close>

text \<open>
  An optional address \<open>address?: string\<close>. The JSON-RPC answer for a contract creation may
  carry \<open>to: null\<close> instead of leaving the field out, so \<open>null\<close> is a value of its own.
\<close>

datatype address = Undefined | Null | Address string

definition toLowerCase :: "string \<Rightarrow> string" where
  "toLowerCase str =
     map (\<lambda>c. case map_of (zip ''ABCDEFGHIJKLMNOPQRSTUVWXYZ'' ''abcdefghijklmnopqrstuvwxyz'') c of
                 None \<Rightarrow> c | Some d \<Rightarrow> d) str"

text \<open>
  The property key of \<open>this.addressToBytecodes[address && address.toLowerCase()]\<close>: an
  \<open>undefined\<close> or \<open>null\<close> address is not lowered, it is converted to the key
  \<open>"undefined"\<close> or \<open>"null"\<close>.
\<close>

definition addressKey :: "address \<Rightarrow> string" where
  "addressKey a =
     (case a of Undefined \<Rightarrow> ''undefined'' | Null \<Rightarrow> ''null'' | Address str \<Rightarrow> toLowerCase str)"

definition loadAddresses :: "Sources \<Rightarrow> (string \<times> string) list \<Rightarrow> Sources" where
  "loadAddresses st addressToBytecodes' =
     fold (\<lambda>(a, code) st'. st' \<lparr> addressToBytecodes := (addressToBytecodes st')(toLowerCase a \<mapsto> code) \<rparr>)
       addressToBytecodes' st"

definition addressToBytecode :: "Sources \<Rightarrow> address \<Rightarrow> error + string" where
  "addressToBytecode st a =
     (case addressToBytecodes st (addressKey a) of
        None \<Rightarrow> Inl UnknownAddress
      | Some code \<Rightarrow> Inr code)"

section \<open>Trace\<close>

record StructLog =
  log_depth :: int
  log_op :: string
  log_pc :: nat
  log_stack :: "string list"
  log_memory :: "string list"

record TaggedLog = StructLog +
  tag_address :: address
  tag_bytecode :: "string option"

record TraceableTxData =
  tx_to :: address
  tx_input :: "string option"

record TraceInfo =
  txHash :: string
  txData :: TraceableTxData
  structLogs :: "StructLog list"

text \<open>A frame of the reconstructed call stack: \<open>{address}\<close> or \<open>{bytecode}\<close>.\<close>

record Frame =
  fr_address :: address
  fr_bytecode :: "string option"

definition nthStackBack :: "'a list \<Rightarrow> nat \<Rightarrow> 'a option" where
  "nthStackBack stack offset =
     (if offset < length stack then Some (stack ! (length stack - offset - 1)) else None)"

definition parseAddress :: "string option \<Rightarrow> string" where
  "parseAddress arg = ''0x'' @ (case arg of None \<Rightarrow> ''undefined'' | Some a \<Rightarrow> drop 24 a)"

text \<open>
  \<open>Number(BigInt('0x' + arg))\<close>: a \<open>SyntaxError\<close> unless \<open>arg\<close> is a non-empty run of hex
  digits.
\<close>

definition parseUint :: "string option \<Rightarrow> error + nat" where
  "parseUint arg =
     (case arg of
        None \<Rightarrow> Inl SyntaxError
      | Some a \<Rightarrow>
          if a \<noteq> [] \<and> list_all (isDigit 16) a then Inr (nat (digitsValue 16 a))
          else Inl SyntaxError)"

definition isCall :: "string \<Rightarrow> bool" where
  "isCall opc = (opc \<in> set [''CALL'', ''CALLCODE'', ''DELEGATECALL'', ''STATICCALL''])"

definition isCreate :: "string \<Rightarrow> bool" where
  "isCreate opc = (opc \<in> set [''CREATE'', ''CREATE2''])"

text \<open>
  What a tagged log carries: the bytecode of the top frame when it is truthy (a non-empty
  string), the address of the top frame otherwise.
\<close>

definition tagLog :: "Frame \<Rightarrow> StructLog \<Rightarrow> TaggedLog" where
  "tagLog topFrame log =
     (case fr_bytecode topFrame of
        Some code \<Rightarrow>
          if code \<noteq> [] then StructLog.extend log \<lparr> tag_address = Undefined, tag_bytecode = Some code \<rparr>
          else StructLog.extend log \<lparr> tag_address = fr_address topFrame, tag_bytecode = None \<rparr>
      | None \<Rightarrow> StructLog.extend log \<lparr> tag_address = fr_address topFrame, tag_bytecode = None \<rparr>)"

text \<open>
  The \<open>switch (log.op)\<close> of \<open>followInfo\<close>. \<open>post.depth\<close> is the depth of the next log, or
  of the log itself when it is the last one.
\<close>

definition followStep :: "Frame list \<Rightarrow> StructLog \<Rightarrow> StructLog option \<Rightarrow> error + Frame list" where
  "followStep stack log next =
     (let preDepth = log_depth log;
          postDepth = (case next of None \<Rightarrow> log_depth log | Some n \<Rightarrow> log_depth n)
      in if isCall (log_op log) then
           (if postDepth = preDepth + 1
            then Inr (stack @ [\<lparr> fr_address = Address (parseAddress (nthStackBack (log_stack log) 1)),
                                 fr_bytecode = None \<rparr>])
            else Inr stack)
         else if isCreate (log_op log) then
           (if postDepth \<noteq> preDepth + 1 then Inl TraceInconsistency
            else
              (case parseUint (nthStackBack (log_stack log) 1) of
                 Inl e \<Rightarrow> Inl e
               | Inr offset \<Rightarrow>
                   (case parseUint (nthStackBack (log_stack log) 2) of
                      Inl e \<Rightarrow> Inl e
                    | Inr len \<Rightarrow>
                        Inr (stack @ [\<lparr> fr_address = Undefined,
                                         fr_bytecode =
                                           Some (drop (2 * offset)
                                                  (take (2 * (offset + len)) (concat (log_memory log)))) \<rparr>]))))
         else
           (if postDepth > preDepth then Inl TraceInconsistency
            else Inr (if postDepth < preDepth then butlast stack else stack)))"

text \<open>
  The generator: the tagged logs it yields, and the error that ends it early, if any.
  \<open>top.bytecode\<close> on an empty frame stack is a \<open>TypeError\<close>.
\<close>

fun followLoop :: "Frame list \<Rightarrow> StructLog list \<Rightarrow> TaggedLog list \<times> error option" where
  "followLoop stack [] = ([], None)"
| "followLoop stack (log # rest) =
     (case nthStackBack stack 0 of
        None \<Rightarrow> ([], Some TypeError)
      | Some topFrame \<Rightarrow>
          (case followStep stack log (case rest of [] \<Rightarrow> None | n # _ \<Rightarrow> Some n) of
             Inl e \<Rightarrow> ([tagLog topFrame log], Some e)
           | Inr stack' \<Rightarrow>
               (case followLoop stack' rest of (logs, e) \<Rightarrow> (tagLog topFrame log # logs, e))))"

definition followInfo :: "TraceInfo \<Rightarrow> TaggedLog list \<times> error option" where
  "followInfo info =
     followLoop [\<lparr> fr_address = tx_to (txData info), fr_bytecode = None \<rparr>] (structLogs info)"

text \<open>
  \<open>buildAddressToBytecodes\<close>. The provider's \<open>eth_getCode\<close> is the parameter \<open>getCode\<close>;
  the result is an object, kept in insertion order. \<open>address == null\<close> holds for
  \<open>undefined\<close> and for \<open>null\<close>; \<open>!addressToBytecodes[address]\<close> holds for a missing entry and
  for the empty string.
\<close>

fun buildLoop :: "(string \<Rightarrow> error + string) \<Rightarrow> TraceInfo \<Rightarrow> TaggedLog list \<Rightarrow> (string \<times> string) list
    \<Rightarrow> error + (string \<times> string) list" where
  "buildLoop getCode info [] acc = Inr acc"
| "buildLoop getCode info (log # logs) acc =
     (case tag_address log of
        Address a \<Rightarrow>
          (if map_of acc a = None \<or> map_of acc a = Some []
           then (case getCode a of
                   Inl e \<Rightarrow> Inl e
                 | Inr code \<Rightarrow> buildLoop getCode info logs (AList.update a (drop 2 code) acc))
           else buildLoop getCode info logs acc)
      | _ \<Rightarrow>
          (case tx_input (txData info) of
             None \<Rightarrow> Inl TypeError
           | Some input \<Rightarrow> buildLoop getCode info logs (AList.update ''null'' (drop 2 input) acc)))"

definition buildAddressToBytecodes :: "(string \<Rightarrow> error + string) \<Rightarrow> TraceInfo \<Rightarrow> TaggedLog list
    \<Rightarrow> error + (string \<times> string) list" where
  "buildAddressToBytecodes getCode info logs = buildLoop getCode info logs []"

section \<open>Coverage\<close>

record SourcePosition =
  p_line :: nat
  p_column :: nat

record SourceLocation =
  loc_start :: "SourcePosition option"
  loc_end :: "SourcePosition option"

record BranchEntry =
  br_line :: nat
  br_type :: string
  br_locations :: "SourceLocation list"

record FnEntry =
  fn_name :: string
  fn_line :: nat
  fn_loc :: SourceLocation
  fn_skip :: bool

record StatementEntry =
  stmt_loc :: SourceLocation
  stmt_skip :: bool

text \<open>
  \<open>Feature = {l} | {b: [branchId, alternative]} | {f} | {s}\<close>. The branch, function and
  statement maps are objects that \<open>freshReport\<close> enumerates: association lists.
\<close>

datatype Feature = Line nat | Branch nat nat | Fn nat | Statement nat

record SyntaxTable =
  features :: "Feature list list"
  lines :: "string list"
  branchMap :: "(nat \<times> BranchEntry) list"
  fnMap :: "(nat \<times> FnEntry) list"
  statementMap :: "(nat \<times> StatementEntry) list"

text \<open>
  The entry of one path in a report. The type of \<open>l\<close> is a parameter: a report counts
  lines in \<open>nat \<rightharpoonup> jsnum\<close>, a filtered report copies them under the keys it reads from the
  feature table.
\<close>

record 'l Stats =
  s_path :: string
  s_branchMap :: "(nat \<times> BranchEntry) list"
  s_fnMap :: "(nat \<times> FnEntry) list"
  s_statementMap :: "(nat \<times> StatementEntry) list"
  s_l :: 'l
  s_b :: "nat \<rightharpoonup> (nat \<rightharpoonup> jsnum)"
  s_f :: "nat \<rightharpoonup> jsnum"
  s_s :: "nat \<rightharpoonup> jsnum"

type_synonym Report = "(string \<times> (nat \<rightharpoonup> jsnum) Stats) list"

type_synonym PathToSyntax = "(string \<times> SyntaxTable) list"

record Coverage =
  sources :: Sources
  pathToSyntax :: PathToSyntax

subsection \<open>buildOffsetToPosition\<close>

text \<open>
  \<open>features[i] = v\<close> in the loop below: \<open>i\<close> counts up from 0, so it is an index of the
  array or its length, where the assignment appends.
\<close>

definition setAt :: "'a list \<Rightarrow> nat \<Rightarrow> 'a \<Rightarrow> 'a list" where
  "setAt xs i v = (if i < length xs then xs[i := v] else xs @ [v])"

fun positionLoop :: "string \<Rightarrow> nat \<Rightarrow> (nat \<rightharpoonup> SourcePosition) \<Rightarrow> Feature list list
    \<Rightarrow> error + ((nat \<rightharpoonup> SourcePosition) \<times> Feature list list)" where
  "positionLoop [] i offsetToPosition feats = Inr (offsetToPosition, feats)"
| "positionLoop (byte # sourceBytes) i offsetToPosition feats =
     (case offsetToPosition i of
        None \<Rightarrow> Inl TypeError
      | Some location \<Rightarrow>
          (let isNewline = (byte = CHR 0x0A);
               line = p_line location + (if isNewline then 1 else 0);
               column = (if isNewline then 0 else p_column location + 1)
           in positionLoop sourceBytes (i + 1)
                (offsetToPosition(i + 1 \<mapsto> \<lparr> p_line = line, p_column = column \<rparr>))
                (setAt feats i [Line line])))"

text \<open>\<open>rawSource\<close> is given as its UTF-8 bytes.\<close>

definition buildOffsetToPosition :: "string \<Rightarrow> Feature list list
    \<Rightarrow> error + ((nat \<rightharpoonup> SourcePosition) \<times> Feature list list)" where
  "buildOffsetToPosition rawSource feats =
     positionLoop rawSource 0 [0 \<mapsto> \<lparr> p_line = 1, p_column = 0 \<rparr>] feats"

subsection \<open>freshReport\<close>

definition zeros :: "nat \<Rightarrow> (nat \<rightharpoonup> jsnum)" where
  "zeros n = (\<lambda>i. if i < n then Some (Num 0) else None)"

definition freshStats :: "string \<Rightarrow> SyntaxTable \<Rightarrow> (nat \<rightharpoonup> jsnum) Stats" where
  "freshStats p syntax =
     \<lparr> s_path = p,
       s_branchMap = branchMap syntax,
       s_fnMap = fnMap syntax,
       s_statementMap = statementMap syntax,
       s_l = zeros (length (lines syntax)),
       s_b = map_of (map (\<lambda>(k, e). (k, zeros (length (br_locations e)))) (branchMap syntax)),
       s_f = map_of (map (\<lambda>(k, e). (k, Num 0)) (fnMap syntax)),
       s_s = map_of (map (\<lambda>(k, e). (k, Num 0)) (statementMap syntax)) \<rparr>"

definition freshReport :: "Coverage \<Rightarrow> Report" where
  "freshReport cov =
     fold (\<lambda>(p, syntax) report. AList.update p (freshStats p syntax) report) (pathToSyntax cov) []"

subsection \<open>report\<close>

text \<open>
  The variables \<open>line\<close>, \<open>branch\<close> and \<open>fn\<close> of one opcode. \<open>!branch\<close> is false once a branch
  (an array) is stored; \<open>!fn\<close> is true for \<open>undefined\<close> and also for the function id 0.
\<close>

record Seen =
  seen_line :: "nat option"
  seen_branch :: "(nat \<times> nat) option"
  seen_fn :: "nat option"

definition notFn :: "nat option \<Rightarrow> bool" where
  "notFn fn = (case fn of None \<Rightarrow> True | Some k \<Rightarrow> k = 0)"

text \<open>
  One feature of one source byte. \<open>stats\<close> is \<open>report[path]\<close>, \<open>None\<close> when the report has no
  such path: every access to it is then a \<open>TypeError\<close>, and so is \<open>stats.b[id][alt]\<close> for a
  branch the report does not know. A counter that is missing becomes \<open>NaN\<close>.
\<close>

definition countFeature :: "string \<Rightarrow> Feature \<Rightarrow> Seen \<times> (nat \<rightharpoonup> jsnum) Stats option
    \<Rightarrow> error + (Seen \<times> (nat \<rightharpoonup> jsnum) Stats option)" where
  "countFeature opc feature acc =
     (case acc of (seen, stats) \<Rightarrow>
       (case feature of
          Line n \<Rightarrow>
            if seen_line seen \<noteq> Some n then
              (case stats of
                 None \<Rightarrow> Inl TypeError
               | Some st \<Rightarrow>
                   Inr (seen \<lparr> seen_line := Some n \<rparr>,
                        Some (st \<lparr> s_l := (s_l st)(n \<mapsto> increment (s_l st n)) \<rparr>)))
            else Inr (seen, stats)
        | Branch k alt \<Rightarrow>
            if seen_branch seen = None then
              (case stats of
                 None \<Rightarrow> Inl TypeError
               | Some st \<Rightarrow>
                   (case s_b st k of
                      None \<Rightarrow> Inl TypeError
                    | Some counts \<Rightarrow>
                        Inr (seen \<lparr> seen_branch := Some (k, alt) \<rparr>,
                             Some (st \<lparr> s_b := (s_b st)(k \<mapsto> counts(alt \<mapsto> increment (counts alt))) \<rparr>))))
            else Inr (seen, stats)
        | Fn k \<Rightarrow>
            if opc \<noteq> ''JUMPDEST'' then Inr (seen, stats)
            else if notFn (seen_fn seen) then
              (case stats of
                 None \<Rightarrow> Inl TypeError
               | Some st \<Rightarrow>
                   Inr (seen \<lparr> seen_fn := Some k \<rparr>,
                        Some (st \<lparr> s_f := (s_f st)(k \<mapsto> increment (s_f st k)) \<rparr>)))
            else Inr (seen, stats)
        | Statement k \<Rightarrow>
            (case stats of
               None \<Rightarrow> Inl TypeError
             | Some st \<Rightarrow> Inr (seen, Some (st \<lparr> s_s := (s_s st)(k \<mapsto> increment (s_s st k)) \<rparr>)))))"

fun countFeatures :: "string \<Rightarrow> Feature list \<Rightarrow> Seen \<times> (nat \<rightharpoonup> jsnum) Stats option
    \<Rightarrow> error + (Seen \<times> (nat \<rightharpoonup> jsnum) Stats option)" where
  "countFeatures opc [] acc = Inr acc"
| "countFeatures opc (feature # rest) acc =
     (case countFeature opc feature acc of
        Inl e \<Rightarrow> Inl e
      | Inr acc' \<Rightarrow> countFeatures opc rest acc')"

text \<open>\<open>syntax.features[i]\<close> for an integer \<open>i\<close>, \<open>undefined\<close> outside the array.\<close>

definition featuresAt :: "SyntaxTable \<Rightarrow> int \<Rightarrow> Feature list option" where
  "featuresAt syntax i = (if i < 0 then None else at (features syntax) (nat i))"

definition startsWithHash :: "string \<Rightarrow> bool" where
  "startsWithHash p = (case p of [] \<Rightarrow> False | c # _ \<Rightarrow> c = CHR ''#'')"

text \<open>
  The loop over the bytes \<open>i = range.start, ..., range.start + range.length - 1\<close> of one
  opcode; \<open>n\<close> is the number of bytes left. A missing feature list ends the loop for a
  generated source (a path that starts with \<open>#\<close>) and is a \<open>TypeError\<close> otherwise; so is a
  missing syntax table.
\<close>

fun countBytes :: "SyntaxTable option \<Rightarrow> string \<Rightarrow> string \<Rightarrow> int \<Rightarrow> nat
    \<Rightarrow> Seen \<times> (nat \<rightharpoonup> jsnum) Stats option \<Rightarrow> error + (Seen \<times> (nat \<rightharpoonup> jsnum) Stats option)" where
  "countBytes syntax p opc i 0 acc = Inr acc"
| "countBytes syntax p opc i (Suc n) acc =
     (case syntax of
        None \<Rightarrow> Inl TypeError
      | Some syn \<Rightarrow>
          (case featuresAt syn i of
             None \<Rightarrow> if startsWithHash p then Inr acc else Inl TypeError
           | Some fs \<Rightarrow>
               (case countFeatures opc fs acc of
                  Inl e \<Rightarrow> Inl e
                | Inr acc' \<Rightarrow> countBytes syntax p opc (i + 1) n acc')))"

text \<open>
  The number of turns of \<open>for (let i = range.start; i < range.start + range.length; i++)\<close>
  when \<open>range.length > 0\<close>: none if \<open>range.start\<close> is \<open>NaN\<close>.
\<close>

definition countRange :: "PathToSyntax \<Rightarrow> string \<Rightarrow> string \<Rightarrow> SourceRange \<Rightarrow> Report \<Rightarrow> error + Report" where
  "countRange p2s p opc rng report =
     (case (r_start rng, r_length rng) of
        (Num i, Num n) \<Rightarrow>
          (case countBytes (map_of p2s p) p opc i (nat n)
                  (\<lparr> seen_line = None, seen_branch = None, seen_fn = None \<rparr>, map_of report p) of
             Inl e \<Rightarrow> Inl e
           | Inr (seen, None) \<Rightarrow> Inr report
           | Inr (seen, Some stats) \<Rightarrow> Inr (AList.update p stats report))
      | _ \<Rightarrow> Inr report)"

definition positive :: "jsnum \<Rightarrow> bool" where
  "positive x = (case x of NaN \<Rightarrow> False | Num n \<Rightarrow> n > 0)"

text \<open>\<open>log.bytecode || this.sources.addressToBytecode(log.address)\<close>.\<close>

definition logBytecode :: "Sources \<Rightarrow> TaggedLog \<Rightarrow> error + string" where
  "logBytecode st log =
     (case tag_bytecode log of
        Some code \<Rightarrow> if code \<noteq> [] then Inr code else addressToBytecode st (tag_address log)
      | None \<Rightarrow> addressToBytecode st (tag_address log))"

text \<open>The body of the loop of \<open>report\<close>, for one tagged log.\<close>

definition reportLog :: "PathToSyntax \<Rightarrow> TaggedLog \<Rightarrow> Report \<times> Sources \<Rightarrow> error + (Report \<times> Sources)" where
  "reportLog p2s log acc =
     (case acc of (report, st) \<Rightarrow>
       (case logBytecode st log of
          Inl e \<Rightarrow> Inl e
        | Inr code \<Rightarrow>
            (case bytecodeToSourceMap st code of
               Inl e \<Rightarrow> Inl e
             | Inr (m, st') \<Rightarrow>
                 (case pcToRange m (log_pc log) of
                    Inl e \<Rightarrow> Inl e
                  | Inr rng \<Rightarrow>
                      if positive (r_length rng) then
                        (case compilerSourcePath st' (sm_bytecode m) (r_index rng) of
                           Inl e \<Rightarrow> Inl e
                         | Inr p \<Rightarrow>
                             (case countRange p2s p (log_op log) rng report of
                                Inl e \<Rightarrow> Inl e
                              | Inr report' \<Rightarrow> Inr (report', st')))
                      else Inr (report, st')))))"

fun reportLoop :: "PathToSyntax \<Rightarrow> TaggedLog list \<Rightarrow> Report \<times> Sources \<Rightarrow> error + (Report \<times> Sources)" where
  "reportLoop p2s [] acc = Inr acc"
| "reportLoop p2s (log # logs) acc =
     (case reportLog p2s log acc of
        Inl e \<Rightarrow> Inl e
      | Inr acc' \<Rightarrow> reportLoop p2s logs acc')"

text \<open>
  \<open>report(logs, continueReport?)\<close>. The report is updated in place and returned; the
  sources of the coverage object change when a bytecode is matched fuzzily.
\<close>

definition report :: "Coverage \<Rightarrow> TaggedLog list \<Rightarrow> Report option \<Rightarrow> error + (Report \<times> Coverage)" where
  "report cov logs continueReport =
     (case reportLoop (pathToSyntax cov) logs
             (case continueReport of None \<Rightarrow> freshReport cov | Some r \<Rightarrow> r, sources cov) of
        Inl e \<Rightarrow> Inl e
      | Inr (r, st) \<Rightarrow> Inr (r, cov \<lparr> sources := st \<rparr>))"

subsection \<open>filteredReport\<close>

definition includesColon :: "string \<Rightarrow> bool" where
  "includesColon p = (CHR '':'' \<in> set p)"

text \<open>
  \<open>significantFeature\<close>; \<open>syntax.fnMap[f.f].skip\<close> and \<open>syntax.statementMap[f.s]['skip']\<close> are
  a \<open>TypeError\<close> when the map has no such entry.
\<close>

definition significantFeature :: "SyntaxTable \<Rightarrow> Feature \<Rightarrow> error + bool" where
  "significantFeature syntax feature =
     (case feature of
        Line n \<Rightarrow> Inr False
      | Branch k alt \<Rightarrow> Inr True
      | Fn k \<Rightarrow> (case map_of (fnMap syntax) k of None \<Rightarrow> Inl TypeError | Some e \<Rightarrow> Inr (\<not> fn_skip e))
      | Statement k \<Rightarrow>
          (case map_of (statementMap syntax) k of None \<Rightarrow> Inl TypeError | Some e \<Rightarrow> Inr (\<not> stmt_skip e)))"

text \<open>\<open>fs.filter(significantFeature).length\<close> as a condition: every feature is tested.\<close>

fun anySignificant :: "SyntaxTable \<Rightarrow> Feature list \<Rightarrow> error + bool" where
  "anySignificant syntax [] = Inr False"
| "anySignificant syntax (feature # rest) =
     (case significantFeature syntax feature of
        Inl e \<Rightarrow> Inl e
      | Inr sig \<Rightarrow>
          (case anySignificant syntax rest of
             Inl e \<Rightarrow> Inl e
           | Inr others \<Rightarrow> Inr (sig \<or> others)))"

text \<open>
  The key \<open>fs[0]['l']\<close>: the line of the first feature when that is a line feature,
  \<open>undefined\<close> (the key \<open>None\<close>) otherwise.
\<close>

definition firstLine :: "Feature list \<Rightarrow> nat option" where
  "firstLine fs = (case fs of Line n # _ \<Rightarrow> Some n | _ \<Rightarrow> None)"

text \<open>
  The value \<open>statsEtc.l[n]\<close> read from the report: \<open>None\<close> is \<open>undefined\<close>, for a line the
  report does not count and for the key \<open>undefined\<close>.
\<close>

definition lineCount :: "(nat \<rightharpoonup> jsnum) \<Rightarrow> nat option \<Rightarrow> jsnum option" where
  "lineCount counts key = (case key of None \<Rightarrow> None | Some n \<Rightarrow> counts n)"

text \<open>The \<open>reduce\<close> over \<open>syntax.features\<close> that builds the new \<open>l\<close>.\<close>

fun filterLines :: "SyntaxTable \<Rightarrow> (nat \<rightharpoonup> jsnum) \<Rightarrow> Feature list list
    \<Rightarrow> (nat option \<rightharpoonup> jsnum option) \<Rightarrow> error + (nat option \<rightharpoonup> jsnum option)" where
  "filterLines syntax counts [] acc = Inr acc"
| "filterLines syntax counts (fs # rest) acc =
     (case anySignificant syntax fs of
        Inl e \<Rightarrow> Inl e
      | Inr sig \<Rightarrow>
          filterLines syntax counts rest
            (if sig then acc(firstLine fs \<mapsto> lineCount counts (firstLine fs)) else acc))"

fun filterLoop :: "PathToSyntax \<Rightarrow> Report \<Rightarrow> (string \<times> (nat option \<rightharpoonup> jsnum option) Stats) list
    \<Rightarrow> error + (string \<times> (nat option \<rightharpoonup> jsnum option) Stats) list" where
  "filterLoop p2s [] filtered = Inr filtered"
| "filterLoop p2s ((p, stats) # rest) filtered =
     (if startsWithHash p then filterLoop p2s rest filtered
      else if includesColon p then filterLoop p2s rest filtered
      else
        (case map_of p2s p of
           None \<Rightarrow> Inl TypeError
         | Some syntax \<Rightarrow>
             (case filterLines syntax (s_l stats) (features syntax) Map.empty of
                Inl e \<Rightarrow> Inl e
              | Inr newL \<Rightarrow>
                  filterLoop p2s rest
                    (AList.update p
                       \<lparr> s_path = s_path stats, s_branchMap = s_branchMap stats,
                         s_fnMap = s_fnMap stats, s_statementMap = s_statementMap stats,
                         s_l = newL, s_b = s_b stats, s_f = s_f stats, s_s = s_s stats \<rparr>
                       filtered))))"

definition filteredReport :: "Coverage \<Rightarrow> Report
    \<Rightarrow> error + (string \<times> (nat option \<rightharpoonup> jsnum option) Stats) list" where
  "filteredReport cov r = filterLoop (pathToSyntax cov) r []"

text \<open>
  A coverage object for one file \<open>A.sol\<close> with the three bytes \<open>fg\<close> and newline: a function
  starts at each of the first two bytes. Its one bytecode \<open>5b\<close> is a single \<open>JUMPDEST\<close>
  whose source range is the first two bytes, deployed at the address \<open>0xaa\<close>.
\<close>

definition noLocation :: SourceLocation where
  "noLocation = \<lparr> loc_start = None, loc_end = None \<rparr>"

definition twoFunctions :: SyntaxTable where
  "twoFunctions =
     \<lparr> features = [[Line 1, Fn 0], [Line 1, Fn 1], [Line 2]],
       lines = [''fg'', ''''],
       branchMap = [],
       fnMap = [(0, \<lparr> fn_name = ''f'', fn_line = 1, fn_loc = noLocation, fn_skip = False \<rparr>),
                (1, \<lparr> fn_name = ''g'', fn_line = 1, fn_loc = noLocation, fn_skip = False \<rparr>)],
       statementMap = [] \<rparr>"

definition jumpdestCoverage :: Coverage where
  "jumpdestCoverage =
     \<lparr> sources =
         \<lparr> addressToBytecodes = [''0xaa'' \<mapsto> ''5b''],
           bytecodeToSourceMaps =
             [(''5b'', parse \<lparr> co_object = ''5b'', co_sourceMap = ''0:2:0'' \<rparr>
                         [compilerSource ''A.sol'' [CHR ''f'', CHR ''g'', CHR 0x0A] 0] None)],
           bytecodeAndIndexToPath = [''5b'' \<mapsto> [0 \<mapsto> ''A.sol'']],
           pathToCompilerSources =
             [''A.sol'' \<mapsto> compilerSource ''A.sol'' [CHR ''f'', CHR ''g'', CHR 0x0A] 0],
           unique = 0 \<rparr>,
       pathToSyntax = [(''A.sol'', twoFunctions)] \<rparr>"

definition jumpdestLog :: TaggedLog where
  "jumpdestLog =
     \<lparr> log_depth = 1, log_op = ''JUMPDEST'', log_pc = 0, log_stack = [], log_memory = [],
       tag_address = Address ''0xaa'', tag_bytecode = None \<rparr>"

text \<open>The number of newline bytes among the first \<open>i\<close> bytes of a source.\<close>

definition newlinesBefore :: "string \<Rightarrow> nat \<Rightarrow> nat" where
  "newlinesBefore rawSource i = count_list (take i rawSource) (CHR 0x0A)"

text \<open>
  The frame discipline in the words of the specification, written without the functions
  of the program. The stack of a struct log lists its words from the bottom, so the word
  \<open>k\<close> places from the top is the \<open>k\<close>-th of the reversed list. A word is read as a number
  when it is a non-empty run of hex digits. The callee of a call is the word one place from
  the top without its first 24 hex digits (its low 20 bytes), after \<open>0x\<close>.
\<close>

definition fromTop :: "string list \<Rightarrow> nat \<Rightarrow> string option" where
  "fromTop ws k = (if k < length ws then Some (rev ws ! k) else None)"

definition hexValue :: "string option \<Rightarrow> nat option" where
  "hexValue w =
     (case w of
        None \<Rightarrow> None
      | Some ds \<Rightarrow> if ds \<noteq> [] \<and> list_all (isDigit 16) ds then Some (nat (digitsValue 16 ds)) else None)"

definition calleeAddress :: "string list \<Rightarrow> address" where
  "calleeAddress ws =
     Address (''0x'' @ (case fromTop ws 1 of None \<Rightarrow> ''undefined'' | Some w \<Rightarrow> drop 24 w))"

abbreviation callFamily :: "string set" where
  "callFamily \<equiv> {''CALL'', ''CALLCODE'', ''DELEGATECALL'', ''STATICCALL''}"

abbreviation createFamily :: "string set" where
  "createFamily \<equiv> {''CREATE'', ''CREATE2''}"

text \<open>
  One step of the specification, from the frames before a log and the depth after it:
  the call family pushes the callee's frame when the depth grows by one; the create family
  needs the depth to grow by one and pushes a frame with the init code, the \<open>length\<close> bytes
  of memory from \<open>offset\<close> (two hex digits a byte), both read one and two places from the
  top; any other opcode needs the depth not to grow and pops when it shrinks. \<open>None\<close> is a
  trace the specification rejects.
\<close>

definition specStep :: "Frame list \<Rightarrow> StructLog \<Rightarrow> int \<Rightarrow> Frame list option" where
  "specStep frames pre post =
     (if log_op pre \<in> callFamily then
        Some (if post = log_depth pre + 1
              then frames @ [\<lparr> fr_address = calleeAddress (log_stack pre), fr_bytecode = None \<rparr>]
              else frames)
      else if log_op pre \<in> createFamily then
        (case (hexValue (fromTop (log_stack pre) 1), hexValue (fromTop (log_stack pre) 2)) of
           (Some offset, Some len) \<Rightarrow>
             if post = log_depth pre + 1
             then Some (frames @ [\<lparr> fr_address = Undefined,
                                    fr_bytecode =
                                      Some (take (2 * len) (drop (2 * offset) (concat (log_memory pre)))) \<rparr>])
             else None
         | _ \<Rightarrow> None)
      else if post \<le> log_depth pre then Some (if post < log_depth pre then butlast frames else frames)
      else None)"

text \<open>
  The depth after the \<open>i\<close>-th log is the depth of the next log, or its own when it is the
  last; \<open>specStack\<close> is the frame stack before the \<open>i\<close>-th log.
\<close>

definition postDepth :: "StructLog list \<Rightarrow> nat \<Rightarrow> int" where
  "postDepth logs i =
     (if Suc i < length logs then log_depth (logs ! Suc i) else log_depth (logs ! i))"

fun specStack :: "Frame list \<Rightarrow> StructLog list \<Rightarrow> nat \<Rightarrow> Frame list option" where
  "specStack frames logs 0 = Some frames"
| "specStack frames logs (Suc i) =
     (case specStack frames logs i of
        None \<Rightarrow> None
      | Some frames' \<Rightarrow> specStep frames' (logs ! i) (postDepth logs i))"

definition calleeWord :: string where
  "calleeWord = ''000000000000000000000000c0ffee254729296a45a3885639ac7e10f9d54979''"

text \<open>
  A transaction to \<open>0xaa\<close> that calls \<open>0xc0ffee...\<close>: \<open>CALL\<close> at depth 1 followed by depth 2,
  \<open>RETURN\<close> at depth 2 followed by depth 1, then \<open>STOP\<close>.
\<close>

definition callReturn :: TraceInfo where
  "callReturn =
     \<lparr> txHash = ''0x01'',
       txData = \<lparr> tx_to = Address ''0xaa'', tx_input = Some ''0x'' \<rparr>,
       structLogs =
         [\<lparr> log_depth = 1, log_op = ''CALL'', log_pc = 0,
            log_stack = [''00'', ''00'', ''00'', ''00'', ''00'', calleeWord, ''ffff''], log_memory = [] \<rparr>,
          \<lparr> log_depth = 2, log_op = ''RETURN'', log_pc = 0, log_stack = [''00'', ''00''], log_memory = [] \<rparr>,
          \<lparr> log_depth = 1, log_op = ''STOP'', log_pc = 1, log_stack = [''01''], log_memory = [] \<rparr>] \<rparr>"

text \<open>
  A transaction to the factory \<open>0xaa\<close>: \<open>CREATE\<close> at depth 1 with offset 2 and length 4, so
  that the init code is the bytes 2 to 5 of memory, \<open>600a600c\<close>; the constructor runs at
  depth 2 and calls \<open>0xc0ffee...\<close>, which stops at depth 3; the constructor returns; the
  factory makes a \<open>STATICCALL\<close> that returns at once and stops.
\<close>

definition createCall :: TraceInfo where
  "createCall =
     \<lparr> txHash = ''0x03'',
       txData = \<lparr> tx_to = Address ''0xaa'', tx_input = Some ''0x'' \<rparr>,
       structLogs =
         [\<lparr> log_depth = 1, log_op = ''PUSH1'', log_pc = 0, log_stack = [], log_memory = [] \<rparr>,
          \<lparr> log_depth = 1, log_op = ''CREATE'', log_pc = 2,
            log_stack =
              [''0000000000000000000000000000000000000000000000000000000000000004'',
               ''0000000000000000000000000000000000000000000000000000000000000002'',
               ''0000000000000000000000000000000000000000000000000000000000000000''],
            log_memory =
              [''0000600a600c0000000000000000000000000000000000000000000000000000'',
               ''0000000000000000000000000000000000000000000000000000000000000080''] \<rparr>,
          \<lparr> log_depth = 2, log_op = ''PUSH1'', log_pc = 0, log_stack = [], log_memory = [] \<rparr>,
          \<lparr> log_depth = 2, log_op = ''CALL'', log_pc = 2,
            log_stack = [''00'', ''00'', ''00'', ''00'', ''00'', calleeWord, ''ffff''], log_memory = [] \<rparr>,
          \<lparr> log_depth = 3, log_op = ''STOP'', log_pc = 0, log_stack = [], log_memory = [] \<rparr>,
          \<lparr> log_depth = 2, log_op = ''RETURN'', log_pc = 3, log_stack = [''00'', ''00''], log_memory = [] \<rparr>,
          \<lparr> log_depth = 1, log_op = ''STATICCALL'', log_pc = 3,
            log_stack = [''00'', ''00'', ''00'', ''00'', calleeWord, ''ffff''], log_memory = [] \<rparr>,
          \<lparr> log_depth = 1, log_op = ''STOP'', log_pc = 4, log_stack = [''01''], log_memory = [] \<rparr>] \<rparr>"

text \<open>
  The addresses a trace of a contract creation can carry: none (\<open>undefined\<close>), or a string
  made by \<open>parseAddress\<close>, which starts with \<open>0x\<close>.
\<close>

definition parsedAddress :: "address \<Rightarrow> bool" where
  "parsedAddress a =
     (case a of Undefined \<Rightarrow> True | Null \<Rightarrow> False | Address str \<Rightarrow> take 2 str = ''0x'')"

definition parsedKey :: "string \<Rightarrow> bool" where
  "parsedKey k = (k = ''null'' \<or> take 2 k = ''0x'')"

text \<open>A contract creation: no \<open>to\<close>, the init code as input, one opcode.\<close>

definition creationTx :: TraceInfo where
  "creationTx =
     \<lparr> txHash = ''0x02'',
       txData = \<lparr> tx_to = Undefined, tx_input = Some ''0x600a600c'' \<rparr>,
       structLogs =
         [\<lparr> log_depth = 1, log_op = ''PUSH1'', log_pc = 0, log_stack = [], log_memory = [] \<rparr>] \<rparr>"

definition noSources :: Sources where
  "noSources =
     \<lparr> addressToBytecodes = Map.empty, bytecodeToSourceMaps = [],
       bytecodeAndIndexToPath = Map.empty, pathToCompilerSources = Map.empty, unique = 0 \<rparr>"

text \<open>
  The words of the specification for the filter, written without the functions of the
  program. A path is kept when it does not start with \<open>#\<close> and contains no \<open>:\<close>. A
  feature is significant when it is a branch, a function whose \<open>fnMap\<close> entry is not marked
  \<open>skip\<close>, or a statement whose \<open>statementMap\<close> entry is not marked \<open>skip\<close>. A report can be
  filtered when its paths are distinct (it is an object) and every path that is kept has a
  syntax table whose function and statement features all have their map entries.
\<close>

definition kept :: "string \<Rightarrow> bool" where
  "kept p = (take 1 p \<noteq> ''#'' \<and> CHR '':'' \<notin> set p)"

definition significant :: "SyntaxTable \<Rightarrow> Feature \<Rightarrow> bool" where
  "significant syntax feature =
     (case feature of
        Line n \<Rightarrow> False
      | Branch k alt \<Rightarrow> True
      | Fn k \<Rightarrow> (case map_of (fnMap syntax) k of None \<Rightarrow> False | Some e \<Rightarrow> \<not> fn_skip e)
      | Statement k \<Rightarrow>
          (case map_of (statementMap syntax) k of None \<Rightarrow> False | Some e \<Rightarrow> \<not> stmt_skip e))"

definition hasEntry :: "SyntaxTable \<Rightarrow> Feature \<Rightarrow> bool" where
  "hasEntry syntax feature =
     (case feature of
        Line n \<Rightarrow> True
      | Branch k alt \<Rightarrow> True
      | Fn k \<Rightarrow> map_of (fnMap syntax) k \<noteq> None
      | Statement k \<Rightarrow> map_of (statementMap syntax) k \<noteq> None)"

definition knownFeatures :: "SyntaxTable \<Rightarrow> bool" where
  "knownFeatures syntax = list_all (list_all (hasEntry syntax)) (features syntax)"

definition filterable :: "PathToSyntax \<Rightarrow> Report \<Rightarrow> bool" where
  "filterable p2s r =
     (distinct (map fst r) \<and>
      list_all (\<lambda>(p, stats). if kept p
                  then (case map_of p2s p of None \<Rightarrow> False | Some syntax \<Rightarrow> knownFeatures syntax)
                  else True) r)"

text \<open>
  The result of the \<open>reduce\<close> in closed form, for the proofs: a byte files its line under
  the key \<open>fs[0]['l']\<close> when one of its features is significant.
\<close>

definition significantByte :: "SyntaxTable \<Rightarrow> nat option \<Rightarrow> Feature list \<Rightarrow> bool" where
  "significantByte syntax key fs = (firstLine fs = key \<and> list_ex (significant syntax) fs)"

text \<open>
  A key is present when a significant byte names it, and it carries the count of the
  report. \<open>withLines\<close> is the copy of an entry with another \<open>l\<close>.
\<close>

definition rewriteLines :: "SyntaxTable \<Rightarrow> (nat \<rightharpoonup> jsnum) \<Rightarrow> (nat option \<rightharpoonup> jsnum option)" where
  "rewriteLines syntax counts =
     (\<lambda>key. if list_ex (significantByte syntax key) (features syntax)
            then Some (lineCount counts key) else None)"

definition withLines :: "(nat \<rightharpoonup> jsnum) Stats \<Rightarrow> (nat option \<rightharpoonup> jsnum option)
    \<Rightarrow> (nat option \<rightharpoonup> jsnum option) Stats" where
  "withLines stats newL =
     \<lparr> s_path = s_path stats, s_branchMap = s_branchMap stats, s_fnMap = s_fnMap stats,
       s_statementMap = s_statementMap stats, s_l = newL, s_b = s_b stats, s_f = s_f stats,
       s_s = s_s stats \<rparr>"

text \<open>
  A coverage object for one file \<open>A.sol\<close> that is the single byte \<open>x\<close>, with no newline at
  its end: one line, one statement. Its bytecode \<open>00\<close> is a \<open>STOP\<close> whose source range is
  that byte, deployed at \<open>0xaa\<close>.
\<close>

definition oneLine :: SyntaxTable where
  "oneLine =
     \<lparr> features = [[Line 1, Statement 0]],
       lines = [''x''],
       branchMap = [],
       fnMap = [],
       statementMap = [(0, \<lparr> stmt_loc = noLocation, stmt_skip = False \<rparr>)] \<rparr>"

definition oneLineCoverage :: Coverage where
  "oneLineCoverage =
     \<lparr> sources =
         \<lparr> addressToBytecodes = [''0xaa'' \<mapsto> ''00''],
           bytecodeToSourceMaps =
             [(''00'', parse \<lparr> co_object = ''00'', co_sourceMap = ''0:1:0'' \<rparr>
                         [compilerSource ''A.sol'' ''x'' 0] None)],
           bytecodeAndIndexToPath = [''00'' \<mapsto> [0 \<mapsto> ''A.sol'']],
           pathToCompilerSources = [''A.sol'' \<mapsto> compilerSource ''A.sol'' ''x'' 0],
           unique = 0 \<rparr>,
       pathToSyntax = [(''A.sol'', oneLine)] \<rparr>"

definition stopLog :: TaggedLog where
  "stopLog =
     \<lparr> log_depth = 1, log_op = ''STOP'', log_pc = 0, log_stack = [], log_memory = [],
       tag_address = Address ''0xaa'', tag_bytecode = None \<rparr>"

text \<open>The constructor code and the runtime code of the repository's test \<open>test/source.js\<close>.\<close>

definition constructorCode :: CompilerOutputCode where
  "constructorCode =
     \<lparr> co_object = ''6080604052600080fdfea26469706673582212207239d3f1ecf78a512729b73fb7becb79654bb9acde3c1c4886b1362fbab6230764736f6c634300080d0033'',
       co_sourceMap = ''155:997:1:-:0;;;;;'' \<rparr>"

definition runtimeCode :: CompilerOutputCode where
  "runtimeCode =
     \<lparr> co_object = ''6080604052348015600f57600080fd5b50603f80601d6000396000f3fe6080604052600080fdfea26469706673582212207239d3f1ecf78a512729b73fb7becb79654bb9acde3c1c4886b1362fbab6230764736f6c634300080d0033'',
       co_sourceMap = ''155:997:1:-:0;;;;;;;;;;;;;;;;;;;'' \<rparr>"

text \<open>
  A report with four paths, one generated (\<open>#utility.yul\<close>) and one remapped (\<open>A.sol:0\<close>).
  In \<open>A.sol\<close> line 1 has a skipped statement, line 2 a function, line 3 nothing, line 4 a
  branch, line 5 a skipped function and line 6 a statement; the report counts the lines
  1, 2 and 4 only.
\<close>

definition sixLines :: SyntaxTable where
  "sixLines =
     \<lparr> features = [[Line 1, Statement 0], [Line 1], [Line 2, Fn 0], [Line 3],
                   [Line 4, Branch 0 1], [Line 5, Fn 1], [Line 6, Statement 1]],
       lines = [''a'', ''b'', '''', ''c'', ''d'', ''e''],
       branchMap = [(0, \<lparr> br_line = 4, br_type = ''if'', br_locations = [noLocation, noLocation] \<rparr>)],
       fnMap = [(0, \<lparr> fn_name = ''f'', fn_line = 2, fn_loc = noLocation, fn_skip = False \<rparr>),
                (1, \<lparr> fn_name = ''g'', fn_line = 5, fn_loc = noLocation, fn_skip = True \<rparr>)],
       statementMap = [(0, \<lparr> stmt_loc = noLocation, stmt_skip = True \<rparr>),
                       (1, \<lparr> stmt_loc = noLocation, stmt_skip = False \<rparr>)] \<rparr>"

definition sixLinesStats :: "string \<Rightarrow> (nat \<rightharpoonup> jsnum) Stats" where
  "sixLinesStats p =
     \<lparr> s_path = p,
       s_branchMap = branchMap sixLines,
       s_fnMap = fnMap sixLines,
       s_statementMap = statementMap sixLines,
       s_l = [1 \<mapsto> Num 3, 2 \<mapsto> Num 5, 4 \<mapsto> Num 1],
       s_b = [0 \<mapsto> [0 \<mapsto> Num 0, 1 \<mapsto> Num 1]],
       s_f = [0 \<mapsto> Num 5, 1 \<mapsto> Num 0],
       s_s = [0 \<mapsto> Num 3, 1 \<mapsto> Num 0] \<rparr>"

definition fourPaths :: Report where
  "fourPaths =
     [(''#utility.yul'', sixLinesStats ''#utility.yul''),
      (''A.sol'', sixLinesStats ''A.sol''),
      (''A.sol:0'', sixLinesStats ''A.sol:0''),
      (''B.sol'', freshStats ''B.sol'' twoFunctions)]"

definition fourPathsCoverage :: Coverage where
  "fourPathsCoverage =
     \<lparr> sources = noSources,
       pathToSyntax = [(''#utility.yul'', sixLines), (''A.sol'', sixLines),
                       (''A.sol:0'', sixLines), (''B.sol'', twoFunctions)] \<rparr>"

section \<open>Properties of SourceMap\<close>

lemma field_inheritField: "field (at parts j) prev = inheritField parts j prev"
  by (simp add: field_def at_def inheritField_def)

lemma nextState_spec:
  "nextState state entry =
     \<lparr> st_s = inheritField (split CHR '':'' entry) 0 (st_s state),
       st_l = inheritField (split CHR '':'' entry) 1 (st_l state),
       st_f = inheritField (split CHR '':'' entry) 2 (st_f state) \<rparr>"
  by (simp add: nextState_def Let_def field_inheritField)

lemma length_specStates: "length (specStates state entries) = length entries"
  by (induction entries arbitrary: state) (simp_all add: Let_def)

lemma parseLoop_lookup:
  "parseLoop entries i state ranges k =
     (if i \<le> k \<and> k < i + length entries
      then Some (rangeOf (specStates state entries ! (k - i)))
      else ranges k)"
proof (induction entries arbitrary: i state ranges k)
  case Nil
  then show ?case by auto
next
  case (Cons entry entries)
  show ?case
    by (cases "k = i") (auto simp: Cons.IH Let_def nextState_spec nth_Cons')
qed

text \<open>
  C1. On the three bytes \<open>0x60 0x01 0x00\<close> (PUSH1 1; STOP) the table is not \<open>{0:0, 2:1}\<close>:
  the loop runs while \<open>pc\<close> is below the length of the hex string, which is 6, so the
  positions 3, 4 and 5, all past the three decoded bytes, are recorded as instructions
  2, 3 and 4.
\<close>

theorem buildPCToInstructionIndices_past_end:
  "hexDecode ''600100'' = [0x60, 0x01, 0x00] \<and>
   buildPCToInstructionIndices ''600100'' = [0 \<mapsto> 0, 2 \<mapsto> 1, 3 \<mapsto> 2, 4 \<mapsto> 3, 5 \<mapsto> 4]"
  by (simp add: buildPCToInstructionIndices_def digitVal_def at_def eval_nat_numeral)

text \<open>
  C8. \<open>SourceMap.parse\<close> splits the source map on \<open>;\<close> and consumes the entries in order
  from the state \<open>{s:0, l:0, f:0}\<close>; a missing or empty \<open>s\<close>, \<open>l\<close> or \<open>f\<close> field keeps the value
  of the previous entry, and the \<open>k\<close>-th entry gives \<open>instructionIndexToRanges[k]\<close> the range
  \<open>{start: s, length: l, index: f}\<close> of the state after it. No other index has a range.
\<close>

theorem parse_ranges:
  "instructionIndexToRanges (parse code srcs fq) k =
     (if k < length (split CHR '';'' (co_sourceMap code))
      then Some \<lparr> r_start = st_s (specStates initialState (split CHR '';'' (co_sourceMap code)) ! k),
                   r_length = st_l (specStates initialState (split CHR '';'' (co_sourceMap code)) ! k),
                   r_index = st_f (specStates initialState (split CHR '';'' (co_sourceMap code)) ! k) \<rparr>
      else None)"
  by (simp add: parse_def parseLoop_lookup initialState_def rangeOf_def)

text \<open>
  The source map \<open>10:20:0;;5::\<close> has the ranges \<open>{10,20,0}\<close>, \<open>{10,20,0}\<close>, \<open>{5,20,0}\<close>, and
  \<open>3:4:1;;6::2;:7:\<close> has \<open>{3,4,1}\<close>, \<open>{3,4,1}\<close>, \<open>{6,4,2}\<close>, \<open>{6,7,2}\<close>; the next index has
  no range.
\<close>

theorem parse_ranges_witness:
  "map (instructionIndexToRanges
          (parse \<lparr> co_object = '''', co_sourceMap = ''10:20:0;;5::'' \<rparr> [] None)) [0, 1, 2, 3] =
     [Some \<lparr> r_start = Num 10, r_length = Num 20, r_index = Num 0 \<rparr>,
      Some \<lparr> r_start = Num 10, r_length = Num 20, r_index = Num 0 \<rparr>,
      Some \<lparr> r_start = Num 5, r_length = Num 20, r_index = Num 0 \<rparr>,
      None] \<and>
   map (instructionIndexToRanges
          (parse \<lparr> co_object = '''', co_sourceMap = ''3:4:1;;6::2;:7:'' \<rparr> [] None)) [0, 1, 2, 3, 4] =
     [Some \<lparr> r_start = Num 3, r_length = Num 4, r_index = Num 1 \<rparr>,
      Some \<lparr> r_start = Num 3, r_length = Num 4, r_index = Num 1 \<rparr>,
      Some \<lparr> r_start = Num 6, r_length = Num 4, r_index = Num 2 \<rparr>,
      Some \<lparr> r_start = Num 6, r_length = Num 7, r_index = Num 2 \<rparr>,
      None]"
  by (simp add: parse_ranges initialState_def inheritField_def parseInt_def
      parseDigits_def isDigit_def digitVal_def digitsValue_def isWhite_def Let_def
      eval_nat_numeral)

section \<open>Properties of Sources\<close>

lemma fuzzyMatch_rules: "fuzzyMatch b k \<longleftrightarrow> sameLengthRule b k \<or> prefixRule b k"
proof (cases "length b = length k")
  case True
  have "(\<exists>p \<in> set (zip b k). fst p \<noteq> snd p \<and> snd p \<noteq> CHR ''0'') \<longleftrightarrow>
        (\<exists>i < length b. b ! i \<noteq> k ! i \<and> k ! i \<noteq> CHR ''0'')"
    using True by (auto simp: set_zip)
  then show ?thesis
    using True
    by (auto simp: fuzzyMatch_def mismatchOnNonZeroByte_def sameLengthRule_def prefixRule_def
        list_ex_iff case_prod_beta)
next
  case False
  then show ?thesis
    by (auto simp: fuzzyMatch_def sameLengthRule_def prefixRule_def)
qed

lemma findRemap_error: "findRemap p2cs src uniq i = Inl e \<Longrightarrow> e = TypeError"
proof (induction p2cs src uniq i rule: findRemap.induct)
  case (1 p2cs src uniq i)
  then show ?case
    by (subst (asm) findRemap.simps) (auto split: if_splits option.splits)
qed

lemma indexSource_error: "indexSource st b src = Inl e \<Longrightarrow> e = TypeError"
  by (auto simp: indexSource_def Let_def split: option.splits if_splits sum.splits
      dest: findRemap_error)

lemma indexSources_error: "indexSources st b srcs = Inl e \<Longrightarrow> e = TypeError"
  by (induction srcs arbitrary: st) (auto split: sum.splits dest: indexSource_error)

lemma indexBytecodeToSourceMap_error: "indexBytecodeToSourceMap st b = Inl e \<Longrightarrow> e = TypeError"
  by (auto simp: indexBytecodeToSourceMap_def Let_def split: option.splits
      dest: indexSources_error)

lemma insertAndIndex_error: "insertAndIndexBytecodeAndSourceMap st b m = Inl e \<Longrightarrow> e = TypeError"
  by (auto simp: insertAndIndexBytecodeAndSourceMap_def split: sum.splits
      dest: indexBytecodeToSourceMap_error)

text \<open>Indexing never touches the known bytecodes or the addresses.\<close>

lemma indexSource_keeps:
  "indexSource st b src = Inr st' \<Longrightarrow>
     bytecodeToSourceMaps st' = bytecodeToSourceMaps st \<and>
     addressToBytecodes st' = addressToBytecodes st"
  by (auto simp: indexSource_def setPath_def Let_def split: option.splits if_splits sum.splits)

lemma indexSources_keeps:
  "indexSources st b srcs = Inr st' \<Longrightarrow>
     bytecodeToSourceMaps st' = bytecodeToSourceMaps st \<and>
     addressToBytecodes st' = addressToBytecodes st"
proof (induction srcs arbitrary: st)
  case Nil
  then show ?case by simp
next
  case (Cons src srcs)
  then show ?case
    by (auto split: sum.splits dest!: indexSource_keeps)
qed

lemma indexBytecodeToSourceMap_keeps:
  "indexBytecodeToSourceMap st b = Inr st' \<Longrightarrow>
     bytecodeToSourceMaps st' = bytecodeToSourceMaps st \<and>
     addressToBytecodes st' = addressToBytecodes st"
  by (auto simp: indexBytecodeToSourceMap_def Let_def split: option.splits
      dest!: indexSources_keeps)

text \<open>Indexing settled sources cannot fail and only writes \<open>bytecodeAndIndexToPath\<close>.\<close>

lemma settled_cong:
  assumes "pathToCompilerSources st' = pathToCompilerSources st" and "unique st' = unique st"
  shows "settled st' src = settled st src"
  unfolding settled_def by (simp only: assms)

lemma indexSource_settled:
  assumes "settled st src"
  shows "\<exists>st'. indexSource st b src = Inr st' \<and>
           pathToCompilerSources st' = pathToCompilerSources st \<and> unique st' = unique st"
proof -
  from assms obtain existing where
    ex: "pathToCompilerSources st (cs_path src) = Some existing"
    by (auto simp: settled_def split: option.splits)
  show ?thesis
  proof (cases "cs_content existing = cs_content src")
    case True
    then show ?thesis
      using ex by (simp add: indexSource_def setPath_def)
  next
    case False
    with assms ex obtain p where
      "findRemap (pathToCompilerSources st) src (unique st) 0 = Inr (Some p)"
      by (auto simp: settled_def split: sum.splits option.splits)
    then show ?thesis
      using ex False by (simp add: indexSource_def setPath_def)
  qed
qed

lemma indexSources_settled:
  "list_all (settled st) srcs \<Longrightarrow>
     \<exists>st'. indexSources st b srcs = Inr st' \<and>
       pathToCompilerSources st' = pathToCompilerSources st \<and> unique st' = unique st"
proof (induction srcs arbitrary: st)
  case Nil
  then show ?case by simp
next
  case (Cons src srcs)
  from Cons.prems have "settled st src" by simp
  from indexSource_settled [OF this, of b] obtain st1 where
    st1: "indexSource st b src = Inr st1"
      "pathToCompilerSources st1 = pathToCompilerSources st" "unique st1 = unique st"
    by blast
  have "list_all (settled st1) srcs"
    using Cons.prems settled_cong [OF st1(2,3)] by (simp add: list_all_iff)
  from Cons.IH [OF this] obtain st2 where
    "indexSources st1 b srcs = Inr st2"
    "pathToCompilerSources st2 = pathToCompilerSources st1" "unique st2 = unique st1"
    by blast
  with st1 show ?case by simp
qed

lemma fuzzyLoop_NoSourceMap:
  "fuzzyLoop st b ks = Inl NoSourceMap \<longleftrightarrow> \<not> (\<exists>k \<in> set ks. fuzzyMatch b k)"
proof (induction ks)
  case Nil
  then show ?case by simp
next
  case (Cons k ks)
  show ?case
  proof (cases "fuzzyMatch b k")
    case True
    then have "fuzzyLoop st b (k # ks) \<noteq> Inl NoSourceMap"
      by (auto split: option.splits dest: insertAndIndex_error)
    with True show ?thesis by auto
  next
    case False
    with Cons.IH show ?thesis by simp
  qed
qed

lemma insertAndIndex_result:
  assumes "insertAndIndexBytecodeAndSourceMap st b m = Inr (m', st')"
  shows "m' = m \<and> bytecodeToSourceMaps st' = AList.update b m (bytecodeToSourceMaps st) \<and>
         addressToBytecodes st' = addressToBytecodes st"
  using assms
  by (auto simp: insertAndIndexBytecodeAndSourceMap_def split: sum.splits
      dest!: indexBytecodeToSourceMap_keeps)

lemma fuzzyLoop_result:
  "fuzzyLoop st b ks = Inr (m, st') \<Longrightarrow>
     (\<exists>k \<in> set ks. fuzzyMatch b k \<and> map_of (bytecodeToSourceMaps st) k = Some m) \<and>
     bytecodeToSourceMaps st' = AList.update b m (bytecodeToSourceMaps st) \<and>
     addressToBytecodes st' = addressToBytecodes st"
proof (induction ks)
  case Nil
  then show ?case by simp
next
  case (Cons k ks)
  show ?case
  proof (cases "fuzzyMatch b k")
    case True
    with Cons.prems obtain m0 where
      m0: "map_of (bytecodeToSourceMaps st) k = Some m0"
        "insertAndIndexBytecodeAndSourceMap st b m0 = Inr (m, st')"
      by (auto split: option.splits)
    from insertAndIndex_result [OF m0(2)] m0(1) True show ?thesis by auto
  next
    case False
    with Cons show ?thesis by auto
  qed
qed

lemma insertAndIndex_settled:
  assumes "list_all (settled st) (compilerSources m)"
  shows "\<exists>st'. insertAndIndexBytecodeAndSourceMap st b m = Inr (m, st')"
proof -
  define st1 where
    "st1 = st \<lparr> bytecodeToSourceMaps := AList.update b m (bytecodeToSourceMaps st) \<rparr>"
  define st2 where
    "st2 = st1 \<lparr> bytecodeAndIndexToPath :=
                   (bytecodeAndIndexToPath st1)
                     (b \<mapsto> (case bytecodeAndIndexToPath st1 b of
                                None \<Rightarrow> Map.empty | Some si2p \<Rightarrow> si2p)) \<rparr>"
  have same: "pathToCompilerSources st2 = pathToCompilerSources st" "unique st2 = unique st"
    by (simp_all add: st1_def st2_def)
  have "list_all (settled st2) (compilerSources m)"
    using assms settled_cong [OF same] by (simp add: list_all_iff)
  from indexSources_settled [OF this, of b] obtain st' where
    "indexSources st2 b (compilerSources m) = Inr st'"
    by blast
  moreover have "map_of (bytecodeToSourceMaps st1) b = Some m"
    by (simp add: st1_def update_conv')
  ultimately have "indexBytecodeToSourceMap st1 b = Inr st'"
    by (simp add: indexBytecodeToSourceMap_def Let_def st2_def)
  then show ?thesis
    by (simp add: insertAndIndexBytecodeAndSourceMap_def st1_def)
qed

lemma sourcesSettledD:
  "sourcesSettled st \<Longrightarrow> map_of (bytecodeToSourceMaps st) k = Some m \<Longrightarrow>
     list_all (settled st) (compilerSources m)"
  by (auto simp: sourcesSettled_def list_all_iff dest!: map_of_SomeD)

lemma fuzzyLoop_settled:
  assumes "sourcesSettled st" and "set ks \<subseteq> fst ` set (bytecodeToSourceMaps st)"
    and "\<exists>k \<in> set ks. fuzzyMatch b k"
  shows "\<exists>m st'. fuzzyLoop st b ks = Inr (m, st')"
  using assms(2,3)
proof (induction ks)
  case Nil
  then show ?case by simp
next
  case (Cons k ks)
  show ?case
  proof (cases "fuzzyMatch b k")
    case True
    from Cons.prems(1) have "k \<in> fst ` set (bytecodeToSourceMaps st)" by simp
    then obtain m where m: "map_of (bytecodeToSourceMaps st) k = Some m"
      by (metis domD dom_map_of_conv_image_fst)
    from insertAndIndex_settled [OF sourcesSettledD [OF assms(1) m], of b]
    show ?thesis using True m by auto
  next
    case False
    with Cons show ?thesis by auto
  qed
qed

text \<open>
  What \<open>bytecodeToSourceMap(b)\<close> does when it finds no exact entry, in a state whose
  compiler sources are all settled: the call succeeds exactly when a known bytecode
  matches \<open>b\<close> by the same-length rule or by the prefix rule; with no match it fails with
  \<open>NoSourceMap\<close>; on success the source map returned is that of a matching known bytecode,
  it is stored under the key \<open>b\<close>, and a second call returns the same source map by direct
  lookup, leaving the state as it is.
\<close>

lemma bytecodeToSourceMap_settled:
  assumes "map_of (bytecodeToSourceMaps st) b = None" and "sourcesSettled st"
  shows
    "((\<exists>m st'. bytecodeToSourceMap st b = Inr (m, st')) \<longleftrightarrow>
        (\<exists>k \<in> fst ` set (bytecodeToSourceMaps st). sameLengthRule b k \<or> prefixRule b k)) \<and>
     ((\<forall>k \<in> fst ` set (bytecodeToSourceMaps st). \<not> (sameLengthRule b k \<or> prefixRule b k)) \<longrightarrow>
        bytecodeToSourceMap st b = Inl NoSourceMap) \<and>
     (\<forall>m st'. bytecodeToSourceMap st b = Inr (m, st') \<longrightarrow>
        (\<exists>k. map_of (bytecodeToSourceMaps st) k = Some m \<and> (sameLengthRule b k \<or> prefixRule b k)) \<and>
        map_of (bytecodeToSourceMaps st') b = Some m \<and>
        bytecodeToSourceMap st' b = Inr (m, st'))"
proof -
  let ?ks = "map fst (bytecodeToSourceMaps st)"
  have run: "bytecodeToSourceMap st b = fuzzyLoop st b ?ks"
    using assms(1) by (simp add: bytecodeToSourceMap_def)
  have keys: "set ?ks = fst ` set (bytecodeToSourceMaps st)" by simp
  have succeeds: "\<exists>m st'. fuzzyLoop st b ?ks = Inr (m, st')"
    if "\<exists>k \<in> set ?ks. fuzzyMatch b k"
    using fuzzyLoop_settled [OF assms(2) _ that] by simp
  have matched: "\<exists>k \<in> set ?ks. fuzzyMatch b k" if "fuzzyLoop st b ?ks = Inr (m, st')" for m st'
    using fuzzyLoop_result [OF that] by blast
  have first: "(\<exists>m st'. bytecodeToSourceMap st b = Inr (m, st')) \<longleftrightarrow>
      (\<exists>k \<in> fst ` set (bytecodeToSourceMaps st). sameLengthRule b k \<or> prefixRule b k)"
    unfolding run keys [symmetric] fuzzyMatch_rules [symmetric]
    using succeeds matched by blast
  have second: "(\<forall>k \<in> fst ` set (bytecodeToSourceMaps st). \<not> (sameLengthRule b k \<or> prefixRule b k)) \<longrightarrow>
      bytecodeToSourceMap st b = Inl NoSourceMap"
    unfolding run keys [symmetric] fuzzyMatch_rules [symmetric]
    using fuzzyLoop_NoSourceMap [of st b ?ks] by blast
  have third: "(\<exists>k. map_of (bytecodeToSourceMaps st) k = Some m \<and> (sameLengthRule b k \<or> prefixRule b k)) \<and>
        map_of (bytecodeToSourceMaps st') b = Some m \<and>
        bytecodeToSourceMap st' b = Inr (m, st')"
    if "bytecodeToSourceMap st b = Inr (m, st')" for m st'
  proof -
    from that run have "fuzzyLoop st b ?ks = Inr (m, st')" by simp
    from fuzzyLoop_result [OF this] have
      k: "\<exists>k. map_of (bytecodeToSourceMaps st) k = Some m \<and> fuzzyMatch b k"
      and upd: "bytecodeToSourceMaps st' = AList.update b m (bytecodeToSourceMaps st)"
      by blast+
    from upd have "map_of (bytecodeToSourceMaps st') b = Some m"
      by (simp add: update_conv')
    then show ?thesis
      using k by (simp add: bytecodeToSourceMap_def fuzzyMatch_rules)
  qed
  from first second third show ?thesis by blast
qed

text \<open>
  The compiled bytecode \<open>ab00cd00ef\<close> and the deployed \<open>ab12cd34ef\<close>: the same-length rule
  matches, the call succeeds and the next call finds the source map by direct lookup.
\<close>

lemma bytecodeToSourceMap_fuzzy_example:
  "map_of (bytecodeToSourceMaps oneContract) ''ab12cd34ef'' = None \<and>
   sourcesSettled oneContract \<and>
   sameLengthRule ''ab12cd34ef'' ''ab00cd00ef'' \<and>
   (\<exists>m st'. bytecodeToSourceMap oneContract ''ab12cd34ef'' = Inr (m, st') \<and>
      map_of (bytecodeToSourceMaps st') ''ab12cd34ef'' = Some m \<and>
      bytecodeToSourceMap st' ''ab12cd34ef'' = Inr (m, st'))"
proof -
  have none: "map_of (bytecodeToSourceMaps oneContract) ''ab12cd34ef'' = None"
    by (simp add: oneContract_def)
  have settled: "sourcesSettled oneContract"
    by (simp add: sourcesSettled_def oneContract_def settled_def sourceMapOf_def
        compilerSource_def)
  have "fuzzyMatch ''ab12cd34ef'' ''ab00cd00ef''"
    by (simp add: fuzzyMatch_def mismatchOnNonZeroByte_def)
  then have rule: "sameLengthRule ''ab12cd34ef'' ''ab00cd00ef''"
    by (simp add: fuzzyMatch_rules prefixRule_def)
  have key: "''ab00cd00ef'' \<in> fst ` set (bytecodeToSourceMaps oneContract)"
    by (simp add: oneContract_def)
  from bytecodeToSourceMap_settled [OF none settled] rule key
  have "\<exists>m st'. bytecodeToSourceMap oneContract ''ab12cd34ef'' = Inr (m, st') \<and>
      map_of (bytecodeToSourceMaps st') ''ab12cd34ef'' = Some m \<and>
      bytecodeToSourceMap st' ''ab12cd34ef'' = Inr (m, st')"
    by blast
  with none settled rule show ?thesis by blast
qed

lemma newSources_oneContract:
  "newSources [(''ab00cd00ef'', sourceMapOf ''ab00cd00ef'' [compilerSource ''A.sol'' ''contract A {}'' 0])]
     = Inr oneContract"
  by (simp add: newSources_def indexBytecodeToSourceMap_def indexSource_def setPath_def
      oneContract_def sourceMapOf_def compilerSource_def)

text \<open>
  C7. Two compilations disagree on \<open>A.sol\<close> and on \<open>B.sol\<close>. The second \<open>A.sol\<close> is stored
  under \<open>A.sol:0\<close> and \<open>unique\<close> becomes 1. For the second \<open>B.sol\<close> the search reads
  \<open>p2cs["B.sol:0"].input\<close>, which does not exist, and the constructor stops with a
  \<open>TypeError\<close> instead of storing the source under \<open>B.sol:1\<close>.
\<close>

theorem newSources_twoCollidingPaths:
  "newSources twoCollidingPaths = Inl TypeError"
  by (simp add: newSources_def twoCollidingPaths_def indexBytecodeToSourceMap_def
      indexSource_def setPath_def sourceMapOf_def compilerSource_def findRemap.simps
      remapPath_def showNat.simps digitChar_def Let_def)

text \<open>
  With one path the rule works as described: sources \<open>A.sol\<close> with a first content, a second
  content and the second content again are stored under \<open>A.sol\<close> and \<open>A.sol:0\<close>, the third
  resolves to \<open>A.sol:0\<close> and no third entry is made.
\<close>

lemma newSources_threeVersions:
  "\<exists>st. newSources threeVersions = Inr st \<and>
     map_option (\<lambda>si2p. map si2p [0, 1, 2]) (bytecodeAndIndexToPath st ''60a0'') =
       Some [Some ''A.sol'', Some ''A.sol:0'', Some ''A.sol:0''] \<and>
     map (\<lambda>p. map_option cs_content (pathToCompilerSources st p)) [''A.sol'', ''A.sol:0'', ''A.sol:1''] =
       [Some ''contract A {}'', Some ''contract A2 {}'', None] \<and>
     unique st = 1"
  by (simp add: newSources_def threeVersions_def indexBytecodeToSourceMap_def
      indexSource_def setPath_def sourceMapOf_def compilerSource_def findRemap.simps
      remapPath_def showNat.simps digitChar_def Let_def)

text \<open>
  C5. A known bytecode matches and the call still fails. The constructor accepts
  \<open>remappedNameTaken\<close>: it stores the second version of \<open>A.sol\<close> under \<open>A.sol:0\<close>, over the
  source that has this path. The deployed bytecode \<open>60a1\<close> has no exact entry and matches
  the known \<open>60a0\<close> by the same-length rule; the source map is stored under \<open>60a1\<close> and
  indexed again, the search for the source \<open>A.sol:0\<close> reads \<open>p2cs["A.sol:0:0"].input\<close>,
  which does not exist, and the call stops with a \<open>TypeError\<close>.
\<close>

theorem bytecodeToSourceMap_match_faults:
  "\<exists>st. newSources remappedNameTaken = Inr st \<and>
     map_of (bytecodeToSourceMaps st) ''60a1'' = None \<and>
     fuzzyMatch ''60a1'' ''60a0'' \<and>
     bytecodeToSourceMap st ''60a1'' = Inl TypeError"
  by (simp add: newSources_def remappedNameTaken_def indexBytecodeToSourceMap_def
      indexSource_def setPath_def sourceMapOf_def compilerSource_def findRemap.simps
      remapPath_def showNat.simps digitChar_def Let_def bytecodeToSourceMap_def
      fuzzyMatch_def mismatchOnNonZeroByte_def insertAndIndexBytecodeAndSourceMap_def)

section \<open>Properties of Coverage\<close>

lemmas report_defs =
  report_def reportLog_def logBytecode_def addressToBytecode_def addressKey_def toLowerCase_def
  bytecodeToSourceMap_def pcToRange_def pcToInstructionIndex_def instructionIndexToRange_def
  positive_def compilerSourcePath_def countRange_def featuresAt_def at_def startsWithHash_def
  countFeature_def notFn_def freshReport_def freshStats_def zeros_def

lemmas parse_defs =
  parse_def buildPCToInstructionIndices_def digitVal_def nextState_def rangeOf_def field_def
  parseInt_def parseDigits_def isDigit_def digitsValue_def isWhite_def

text \<open>
  C4 fails at a newline byte. For the two bytes \<open>a\<close> and newline, \<open>offsetToPosition[1]\<close>,
  the position of the newline byte, is on line 1, and \<open>features[1]\<close> is a line feature
  for line 2.
\<close>

theorem buildOffsetToPosition_newline:
  "buildOffsetToPosition [CHR ''a'', CHR 0x0A] [] =
     Inr ([0 \<mapsto> \<lparr> p_line = 1, p_column = 0 \<rparr>,
           1 \<mapsto> \<lparr> p_line = 1, p_column = 1 \<rparr>,
           2 \<mapsto> \<lparr> p_line = 2, p_column = 0 \<rparr>],
          [[Line 1], [Line 2]])"
  by (simp add: buildOffsetToPosition_def setAt_def Let_def eval_nat_numeral)

text \<open>
  C2. One \<open>JUMPDEST\<close> whose range covers the start bytes of the functions 0 and 1: both
  function counters are incremented. After the function 0 is counted, \<open>fn\<close> is 0 and
  \<open>!fn\<close> is still true, so the next function feature is counted as well.
\<close>

theorem report_counts_second_function:
  "case report jumpdestCoverage [jumpdestLog] None of
     Inl e \<Rightarrow> False
   | Inr (r, cov) \<Rightarrow>
       map_option (\<lambda>stats. (s_f stats 0, s_f stats 1, s_l stats 1)) (map_of r ''A.sol'') =
         Some (Some (Num 1), Some (Num 1), Some (Num 1))"
  by (simp add: report_defs parse_defs jumpdestCoverage_def jumpdestLog_def twoFunctions_def
      compilerSource_def Let_def eval_nat_numeral)

text \<open>
  What \<open>buildOffsetToPosition\<close> computes in general: it never fails; the position of the
  offset \<open>i\<close> is on line 1 plus the number of newline bytes before \<open>i\<close>; the line feature
  of the byte \<open>i\<close> carries the line of the offset \<open>i + 1\<close>, which is the line of the byte
  itself unless the byte is a newline.
\<close>

lemma positionLoop_lines:
  assumes "otp i = Some loc" and "i \<le> length feats"
  shows "\<exists>otp' feats'. positionLoop bytes i otp feats = Inr (otp', feats') \<and>
     (\<forall>k \<le> i. otp' k = otp k) \<and>
     (\<forall>j \<le> length bytes. \<exists>pos. otp' (i + j) = Some pos \<and>
         p_line pos = p_line loc + newlinesBefore bytes j) \<and>
     length feats' = max (length feats) (i + length bytes) \<and>
     (\<forall>j < length bytes. feats' ! (i + j) = [Line (p_line loc + newlinesBefore bytes (Suc j))]) \<and>
     (\<forall>k < i. feats' ! k = feats ! k)"
  using assms
proof (induction bytes arbitrary: i otp feats loc)
  case Nil
  then show ?case by (simp add: newlinesBefore_def)
next
  case (Cons byte bytes)
  define nl where "nl = (if byte = CHR 0x0A then 1 else 0 :: nat)"
  define loc1 where
    "loc1 = \<lparr> p_line = p_line loc + nl,
              p_column = (if byte = CHR 0x0A then 0 else p_column loc + 1) \<rparr>"
  define otp1 where "otp1 = otp(i + 1 \<mapsto> loc1)"
  define feats1 where "feats1 = setAt feats i [Line (p_line loc + nl)]"
  have step: "positionLoop (byte # bytes) i otp feats = positionLoop bytes (i + 1) otp1 feats1"
    using Cons.prems(1) by (simp add: Let_def otp1_def feats1_def loc1_def nl_def)
  have len1: "length feats1 = max (length feats) (i + 1)" and at1: "feats1 ! i = [Line (p_line loc + nl)]"
    and old1: "\<And>k. k < i \<Longrightarrow> feats1 ! k = feats ! k"
    using Cons.prems(2) by (auto simp: feats1_def setAt_def nth_append)
  have "otp1 (i + 1) = Some loc1" by (simp add: otp1_def)
  moreover have "i + 1 \<le> length feats1" using len1 by simp
  ultimately obtain otp' feats' where
    run: "positionLoop bytes (i + 1) otp1 feats1 = Inr (otp', feats')"
    and keep: "\<forall>k \<le> i + 1. otp' k = otp1 k"
    and pos: "\<forall>j \<le> length bytes. \<exists>pos. otp' (i + 1 + j) = Some pos \<and>
         p_line pos = p_line loc1 + newlinesBefore bytes j"
    and len: "length feats' = max (length feats1) (i + 1 + length bytes)"
    and ft: "\<forall>j < length bytes. feats' ! (i + 1 + j) = [Line (p_line loc1 + newlinesBefore bytes (Suc j))]"
    and old: "\<forall>k < i + 1. feats' ! k = feats1 ! k"
    using Cons.IH [of otp1 "i + 1" loc1 feats1] by blast
  have nlb: "newlinesBefore (byte # bytes) (Suc j) = nl + newlinesBefore bytes j" for j
    by (simp add: newlinesBefore_def nl_def)
  have l1: "p_line loc1 = p_line loc + nl" by (simp add: loc1_def)
  have A: "\<forall>k \<le> i. otp' k = otp k"
    using keep by (simp add: otp1_def)
  have B: "\<exists>pos. otp' (i + j) = Some pos \<and> p_line pos = p_line loc + newlinesBefore (byte # bytes) j"
    if "j \<le> length (byte # bytes)" for j
  proof (cases j)
    case 0
    then show ?thesis using A Cons.prems(1) by (simp add: newlinesBefore_def)
  next
    case (Suc j')
    with that pos have "\<exists>pos. otp' (i + 1 + j') = Some pos \<and>
         p_line pos = p_line loc1 + newlinesBefore bytes j'" by simp
    then show ?thesis using Suc by (simp add: nlb l1 add.assoc)
  qed
  have C: "length feats' = max (length feats) (i + length (byte # bytes))"
    using len len1 by simp
  have D: "feats' ! (i + j) = [Line (p_line loc + newlinesBefore (byte # bytes) (Suc j))]"
    if "j < length (byte # bytes)" for j
  proof (cases j)
    case 0
    have "newlinesBefore bytes 0 = 0" by (simp add: newlinesBefore_def)
    with 0 show ?thesis using old at1 by (simp add: nlb)
  next
    case (Suc j')
    with that ft have "feats' ! (i + 1 + j') = [Line (p_line loc1 + newlinesBefore bytes (Suc j'))]"
      by simp
    then show ?thesis using Suc by (simp add: nlb l1 add.assoc)
  qed
  have E: "\<forall>k < i. feats' ! k = feats ! k"
    using old old1 by simp
  from step run A B C D E show ?case by auto
qed

lemma buildOffsetToPosition_lines:
  "\<exists>otp feats'. buildOffsetToPosition rawSource [] = Inr (otp, feats') \<and>
     length feats' = length rawSource \<and>
     (\<forall>i \<le> length rawSource. \<exists>pos. otp i = Some pos \<and> p_line pos = 1 + newlinesBefore rawSource i) \<and>
     (\<forall>i < length rawSource. feats' ! i = [Line (1 + newlinesBefore rawSource (Suc i))])"
proof -
  have "[0 \<mapsto> \<lparr> p_line = 1, p_column = 0 \<rparr>] (0::nat) = Some \<lparr> p_line = 1, p_column = 0 \<rparr>"
    by simp
  from positionLoop_lines [where otp = "[0 \<mapsto> \<lparr> p_line = 1, p_column = 0 \<rparr>]" and i = 0
      and feats = "[]" and bytes = rawSource, OF this]
  show ?thesis
    unfolding buildOffsetToPosition_def by auto
qed

lemma newlinesBefore_Suc:
  "i < length rawSource \<Longrightarrow>
     newlinesBefore rawSource (Suc i) =
       newlinesBefore rawSource i + (if rawSource ! i = CHR 0x0A then 1 else 0)"
  by (simp add: newlinesBefore_def take_Suc_conv_app_nth)

text \<open>
  C4, as the code has it. For every source and every byte offset \<open>i\<close> below its length,
  \<open>features[i]\<close> is one line feature, and its line is that of \<open>offsetToPosition[i + 1]\<close>:
  the line of \<open>offsetToPosition[i]\<close> when the byte is not a newline, one more when it is.
  Lines are 1-based: \<open>offsetToPosition[i]\<close> is on line 1 plus the number of newline bytes
  before \<open>i\<close>.
\<close>

theorem buildOffsetToPosition_features:
  "\<exists>otp feats'. buildOffsetToPosition rawSource [] = Inr (otp, feats') \<and>
     (\<forall>i < length rawSource. \<exists>pos pos'.
        otp i = Some pos \<and> otp (i + 1) = Some pos' \<and>
        feats' ! i = [Line (p_line pos')] \<and>
        p_line pos = 1 + newlinesBefore rawSource i \<and>
        p_line pos' = p_line pos + (if rawSource ! i = CHR 0x0A then 1 else 0))"
proof -
  from buildOffsetToPosition_lines [of rawSource] obtain otp feats' where
    run: "buildOffsetToPosition rawSource [] = Inr (otp, feats')"
    and pos: "\<forall>i \<le> length rawSource. \<exists>pos. otp i = Some pos \<and> p_line pos = 1 + newlinesBefore rawSource i"
    and ft: "\<forall>i < length rawSource. feats' ! i = [Line (1 + newlinesBefore rawSource (Suc i))]"
    by blast
  have "\<exists>pos pos'.
        otp i = Some pos \<and> otp (i + 1) = Some pos' \<and>
        feats' ! i = [Line (p_line pos')] \<and>
        p_line pos = 1 + newlinesBefore rawSource i \<and>
        p_line pos' = p_line pos + (if rawSource ! i = CHR 0x0A then 1 else 0)"
    if "i < length rawSource" for i
  proof -
    from pos that obtain p where p: "otp i = Some p" "p_line p = 1 + newlinesBefore rawSource i"
      by (meson less_imp_le)
    from pos that obtain p' where
      p': "otp (i + 1) = Some p'" "p_line p' = 1 + newlinesBefore rawSource (i + 1)"
      by (metis Suc_eq_plus1 Suc_leI)
    from ft that have "feats' ! i = [Line (1 + newlinesBefore rawSource (Suc i))]" by simp
    with p p' newlinesBefore_Suc [OF that] show ?thesis by simp
  qed
  with run show ?thesis by blast
qed

text \<open>The source \<open>a\<close>, newline, \<open>b\<close>: the features are for the lines 1, 2 and 2.\<close>

theorem buildOffsetToPosition_features_witness:
  "\<exists>otp feats'. buildOffsetToPosition [CHR ''a'', CHR 0x0A, CHR ''b''] [] = Inr (otp, feats') \<and>
     feats' = [[Line 1], [Line 2], [Line 2]] \<and>
     map (map_option p_line \<circ> otp) [0, 1, 2, 3] = [Some 1, Some 1, Some 2, Some 2]"
  using buildOffsetToPosition_features [of "[CHR ''a'', CHR 0x0A, CHR ''b'']"]
  by (simp add: buildOffsetToPosition_def setAt_def Let_def eval_nat_numeral)

text \<open>Two opcodes on the same line count the line twice, one opcode counts it once.\<close>

lemma report_two_opcodes:
  "case report jumpdestCoverage [jumpdestLog, jumpdestLog] None of
     Inl e \<Rightarrow> False
   | Inr (r, cov) \<Rightarrow> map_option (\<lambda>stats. s_l stats 1) (map_of r ''A.sol'') = Some (Some (Num 2))"
  by (simp add: report_defs parse_defs jumpdestCoverage_def jumpdestLog_def twoFunctions_def
      compilerSource_def Let_def eval_nat_numeral)

section \<open>Properties of Trace\<close>

lemma truncate_tagLog: "StructLog.truncate (tagLog topFrame log) = log"
  by (cases log) (simp add: tagLog_def StructLog.defs split: option.splits)

lemma followLoop_logs:
  "followLoop stack logs = (tagged, err) \<Longrightarrow>
     map StructLog.truncate tagged = take (length tagged) logs \<and>
     (err = None \<longrightarrow> length tagged = length logs)"
proof (induction logs arbitrary: stack tagged err)
  case Nil
  then show ?case by simp
next
  case (Cons log rest)
  then show ?case
    by (auto simp: truncate_tagLog split: option.splits sum.splits prod.splits)
qed

lemma nthStackBack_last: "nthStackBack stack 0 = (if stack = [] then None else Some (last stack))"
  by (cases stack rule: rev_cases) (simp_all add: nthStackBack_def)

text \<open>The helpers of the program read the words and numbers the specification names.\<close>

lemma nthStackBack_fromTop: "nthStackBack ws k = fromTop ws k"
  by (simp add: nthStackBack_def fromTop_def rev_nth)

lemma parseAddress_callee:
  "Address (parseAddress (nthStackBack ws (Suc 0))) = calleeAddress ws"
  by (simp add: parseAddress_def calleeAddress_def nthStackBack_fromTop)

lemma parseUint_hexValue:
  "parseUint w = (case hexValue w of None \<Rightarrow> Inl SyntaxError | Some n \<Rightarrow> Inr n)"
  by (simp add: parseUint_def hexValue_def split: option.splits)

lemma slice_take_drop:
  "drop (2 * offset) (take (2 * offset + 2 * len) m) = take (2 * len) (drop (2 * offset) m)"
  by (simp add: drop_take)

text \<open>The rules of \<open>followStep\<close> for the call family, the create family and the other opcodes.\<close>

lemma followStep_call:
  assumes "log_op log \<in> callFamily"
  shows "followStep stack log next =
       Inr (if (case next of None \<Rightarrow> log_depth log | Some n \<Rightarrow> log_depth n) = log_depth log + 1
            then stack @ [\<lparr> fr_address = calleeAddress (log_stack log), fr_bytecode = None \<rparr>]
            else stack)"
proof -
  from assms have "isCall (log_op log)" by (simp add: isCall_def)
  then show ?thesis by (simp add: followStep_def Let_def parseAddress_callee)
qed

lemma followStep_create:
  assumes "log_op log \<in> createFamily"
    and "hexValue (fromTop (log_stack log) 1) = Some offset"
    and "hexValue (fromTop (log_stack log) 2) = Some len"
  shows "followStep stack log next =
       (if (case next of None \<Rightarrow> log_depth log | Some n \<Rightarrow> log_depth n) = log_depth log + 1
        then Inr (stack @ [\<lparr> fr_address = Undefined,
                              fr_bytecode =
                                Some (take (2 * len) (drop (2 * offset) (concat (log_memory log)))) \<rparr>])
        else Inl TraceInconsistency)"
proof -
  from assms(1) have "isCreate (log_op log)" "\<not> isCall (log_op log)"
    by (auto simp: isCall_def isCreate_def)
  then show ?thesis
    using assms(2,3)
    by (simp add: followStep_def Let_def nthStackBack_fromTop parseUint_hexValue slice_take_drop)
qed

lemma followStep_other:
  assumes "log_op log \<notin> callFamily \<union> createFamily"
  shows "followStep stack log next =
       (if (case next of None \<Rightarrow> log_depth log | Some n \<Rightarrow> log_depth n) > log_depth log
        then Inl TraceInconsistency
        else Inr (if (case next of None \<Rightarrow> log_depth log | Some n \<Rightarrow> log_depth n) < log_depth log
                  then butlast stack else stack))"
proof -
  from assms have "\<not> isCall (log_op log)" "\<not> isCreate (log_op log)"
    by (auto simp: isCall_def isCreate_def)
  then show ?thesis by (simp add: followStep_def Let_def)
qed

text \<open>A step of the program that succeeds is the step of the specification.\<close>

lemma followStep_spec:
  assumes "followStep stack log next = Inr stack'"
  shows "specStep stack log (case next of None \<Rightarrow> log_depth log | Some n \<Rightarrow> log_depth n) = Some stack'"
proof -
  consider (call) "log_op log \<in> callFamily"
    | (create) "log_op log \<in> createFamily"
    | (other) "log_op log \<notin> callFamily \<union> createFamily"
    by blast
  then show ?thesis
  proof cases
    case call
    with assms followStep_call [OF call, of stack "next"] show ?thesis
      by (simp add: specStep_def)
  next
    case create
    then have ops: "isCreate (log_op log)" "\<not> isCall (log_op log)" "log_op log \<notin> callFamily"
      by (auto simp: isCall_def isCreate_def)
    from assms ops obtain offset len where
      words: "hexValue (fromTop (log_stack log) 1) = Some offset"
        "hexValue (fromTop (log_stack log) 2) = Some len"
      by (auto simp: followStep_def Let_def nthStackBack_fromTop parseUint_hexValue
          split: if_splits option.splits)
    from assms followStep_create [OF create words, of stack "next"] ops(3) create words
    show ?thesis
      by (simp add: specStep_def split: if_splits)
  next
    case other
    with assms followStep_other [OF other, of stack "next"] show ?thesis
      by (simp add: specStep_def split: if_splits)
  qed
qed

lemma postDepth_0:
  "postDepth (log # rest) 0 = (case rest of [] \<Rightarrow> log_depth log | n # _ \<Rightarrow> log_depth n)"
  by (simp add: postDepth_def split: list.splits)

lemma postDepth_Suc: "postDepth (log # rest) (Suc i) = postDepth rest i"
  by (simp add: postDepth_def)

lemma specStack_Cons:
  "specStack frames (log # rest) (Suc i) =
     (case specStep frames log (postDepth (log # rest) 0) of
        None \<Rightarrow> None
      | Some frames' \<Rightarrow> specStack frames' rest i)"
proof (induction i)
  case 0
  show ?case by (simp split: option.splits)
next
  case (Suc i)
  show ?case
    by (simp only: specStack.simps(2) [of frames "log # rest" "Suc i"] Suc nth_Cons_Suc
        postDepth_Suc)
       (simp split: option.splits)
qed

lemma followLoop_stack:
  "followLoop stack logs = (tagged, None) \<Longrightarrow> i < length logs \<Longrightarrow>
     \<exists>stk. specStack stack logs i = Some stk \<and> stk \<noteq> [] \<and>
           tagged ! i = tagLog (last stk) (logs ! i)"
proof (induction logs arbitrary: stack tagged i)
  case Nil
  then show ?case by simp
next
  case (Cons log rest)
  from Cons.prems(1) obtain stack' tagged' where
    ne: "stack \<noteq> []"
    and step: "followStep stack log (case rest of [] \<Rightarrow> None | n # _ \<Rightarrow> Some n) = Inr stack'"
    and loop: "followLoop stack' rest = (tagged', None)"
    and tg: "tagged = tagLog (last stack) log # tagged'"
    by (auto simp: nthStackBack_last split: option.splits sum.splits prod.splits if_splits)
  from followStep_spec [OF step]
  have spec: "specStep stack log (postDepth (log # rest) 0) = Some stack'"
    by (simp add: postDepth_0 split: list.splits)
  show ?case
  proof (cases i)
    case 0
    with ne tg show ?thesis by simp
  next
    case (Suc j)
    with Cons.prems(2) have "j < length rest" by simp
    from Cons.IH [OF loop this] obtain stk where
      "specStack stack' rest j = Some stk" "stk \<noteq> []" "tagged' ! j = tagLog (last stk) (rest ! j)"
      by blast
    with Suc spec tg show ?thesis
      by (simp add: specStack_Cons del: specStack.simps)
  qed
qed

text \<open>
  The rule for tags: the bytecode of the frame when it has a non-empty one, else its
  address.
\<close>

lemma tagLog_tags:
  "(tag_bytecode (tagLog topFrame log), tag_address (tagLog topFrame log)) =
     (if fr_bytecode topFrame \<noteq> None \<and> fr_bytecode topFrame \<noteq> Some []
      then (fr_bytecode topFrame, Undefined)
      else (None, fr_address topFrame))"
  by (cases log) (auto simp: tagLog_def StructLog.defs split: option.splits)

lemma followInfo_call_return:
  assumes "log_op c \<in> callFamily" and "log_op r \<notin> callFamily \<union> createFamily"
    and "log_op x \<notin> callFamily \<union> createFamily"
    and "log_depth r = log_depth c + 1" and "log_depth x = log_depth c"
  shows "followInfo \<lparr> txHash = h, txData = \<lparr> tx_to = Address caller, tx_input = inp \<rparr>,
                      structLogs = [c, r, x] \<rparr> =
           ([StructLog.extend c \<lparr> tag_address = Address caller, tag_bytecode = None \<rparr>,
             StructLog.extend r \<lparr> tag_address = calleeAddress (log_stack c), tag_bytecode = None \<rparr>,
             StructLog.extend x \<lparr> tag_address = Address caller, tag_bytecode = None \<rparr>],
            None)"
  using assms(4,5)
  by (simp add: followInfo_def followStep_call [OF assms(1)] followStep_other [OF assms(2)]
      followStep_other [OF assms(3)] nthStackBack_last tagLog_def)

lemma followInfo_create_return:
  assumes "log_op c \<in> createFamily"
    and "hexValue (fromTop (log_stack c) 1) = Some offset"
    and "hexValue (fromTop (log_stack c) 2) = Some len"
    and "log_op x \<notin> callFamily \<union> createFamily" and "log_op y \<notin> callFamily \<union> createFamily"
    and "log_depth x = log_depth c + 1" and "log_depth y = log_depth c"
  shows "followInfo \<lparr> txHash = h, txData = \<lparr> tx_to = Address caller, tx_input = inp \<rparr>,
                      structLogs = [c, x, y] \<rparr> =
           ([StructLog.extend c \<lparr> tag_address = Address caller, tag_bytecode = None \<rparr>,
             StructLog.extend x
               (if take (2 * len) (drop (2 * offset) (concat (log_memory c))) \<noteq> []
                then \<lparr> tag_address = Undefined,
                       tag_bytecode = Some (take (2 * len) (drop (2 * offset) (concat (log_memory c)))) \<rparr>
                else \<lparr> tag_address = Undefined, tag_bytecode = None \<rparr>),
             StructLog.extend y \<lparr> tag_address = Address caller, tag_bytecode = None \<rparr>],
            None)"
  using assms(6,7)
  by (simp add: followInfo_def followStep_create [OF assms(1-3)] followStep_other [OF assms(4)]
      followStep_other [OF assms(5)] nthStackBack_last tagLog_def)

text \<open>
  C3 fails on the sequence \<open>CALL\<close> (depth 1 to 2), \<open>RETURN\<close> (depth 2 to 1): it yields one
  tagged log for the callee's address, not two. The \<open>CALL\<close> itself runs in the caller and
  is tagged with the caller's address \<open>0xaa\<close>.
\<close>

theorem followInfo_callReturn_tags:
  "map tag_address (fst (followInfo callReturn)) =
     [Address ''0xaa'', Address ''0xc0ffee254729296a45a3885639ac7e10f9d54979'', Address ''0xaa''] \<and>
   snd (followInfo callReturn) = None"
  by (simp add: callReturn_def calleeWord_def followInfo_def followStep_def isCall_def isCreate_def
      nthStackBack_def tagLog_def parseAddress_def Let_def StructLog.defs)

text \<open>
  C3, as the code has it. When \<open>followInfo\<close> runs to the end it yields one tagged log per
  struct log, in order. The \<open>i\<close>-th is tagged from the top frame of the specification's
  stack before the \<open>i\<close>-th log: with its bytecode when the frame has a non-empty one, with
  its address otherwise. \<open>CALL\<close>, \<open>CALLCODE\<close>, \<open>DELEGATECALL\<close> and \<open>STATICCALL\<close> push the frame
  of the callee address, the second stack word from the top without its first 24 hex
  digits, exactly when the next depth is the depth plus 1. \<open>CREATE\<close> and \<open>CREATE2\<close>, with
  the offset and the length in the second and third stack words from the top, fail the
  trace unless the next depth is the depth plus 1, and then push a frame with no address
  whose bytecode is the \<open>length\<close> bytes of memory from \<open>offset\<close>. Any other opcode fails the
  trace when the depth increases and pops the top frame exactly when it decreases. For a
  call (depth \<open>d\<close> to \<open>d + 1\<close>), a return (back to \<open>d\<close>) and one more opcode, the call is
  tagged with the caller's address, the return with the callee's and the next log with the
  caller's again. For a creation (depth \<open>d\<close> to \<open>d + 1\<close>), a constructor opcode and an opcode
  back at depth \<open>d\<close>, the creation is tagged with the caller's address, the constructor
  opcode with the init code when that is not empty, and the last log with the caller's
  address.
\<close>

theorem followInfo_frames:
  "(followInfo info = (tagged, None) \<longrightarrow>
      map StructLog.truncate tagged = structLogs info \<and>
      (\<forall>i < length (structLogs info).
         \<exists>stk. specStack [\<lparr> fr_address = tx_to (txData info), fr_bytecode = None \<rparr>]
                  (structLogs info) i = Some stk \<and>
               stk \<noteq> [] \<and>
               (tag_bytecode (tagged ! i), tag_address (tagged ! i)) =
                 (if fr_bytecode (last stk) \<noteq> None \<and> fr_bytecode (last stk) \<noteq> Some []
                  then (fr_bytecode (last stk), Undefined)
                  else (None, fr_address (last stk))))) \<and>
   (log_op log \<in> {''CALL'', ''CALLCODE'', ''DELEGATECALL'', ''STATICCALL''} \<longrightarrow>
      followStep stack log next =
        Inr (if (case next of None \<Rightarrow> log_depth log | Some n \<Rightarrow> log_depth n) = log_depth log + 1
             then stack @
                    [\<lparr> fr_address =
                         Address (''0x'' @ (case fromTop (log_stack log) 1 of
                                             None \<Rightarrow> ''undefined'' | Some w \<Rightarrow> drop 24 w)),
                       fr_bytecode = None \<rparr>]
             else stack)) \<and>
   (log_op log \<in> {''CREATE'', ''CREATE2''} \<and>
    hexValue (fromTop (log_stack log) 1) = Some offset \<and>
    hexValue (fromTop (log_stack log) 2) = Some len \<longrightarrow>
      followStep stack log next =
        (if (case next of None \<Rightarrow> log_depth log | Some n \<Rightarrow> log_depth n) = log_depth log + 1
         then Inr (stack @
                    [\<lparr> fr_address = Undefined,
                       fr_bytecode =
                         Some (take (2 * len) (drop (2 * offset) (concat (log_memory log)))) \<rparr>])
         else Inl TraceInconsistency)) \<and>
   (log_op log \<notin> {''CALL'', ''CALLCODE'', ''DELEGATECALL'', ''STATICCALL'', ''CREATE'', ''CREATE2''} \<longrightarrow>
      followStep stack log next =
        (if (case next of None \<Rightarrow> log_depth log | Some n \<Rightarrow> log_depth n) > log_depth log
         then Inl TraceInconsistency
         else Inr (if (case next of None \<Rightarrow> log_depth log | Some n \<Rightarrow> log_depth n) < log_depth log
                   then butlast stack else stack))) \<and>
   (log_op c \<in> {''CALL'', ''CALLCODE'', ''DELEGATECALL'', ''STATICCALL''} \<and>
    log_op r \<notin> {''CALL'', ''CALLCODE'', ''DELEGATECALL'', ''STATICCALL'', ''CREATE'', ''CREATE2''} \<and>
    log_op x \<notin> {''CALL'', ''CALLCODE'', ''DELEGATECALL'', ''STATICCALL'', ''CREATE'', ''CREATE2''} \<and>
    log_depth r = log_depth c + 1 \<and> log_depth x = log_depth c \<longrightarrow>
      followInfo \<lparr> txHash = h, txData = \<lparr> tx_to = Address caller, tx_input = inp \<rparr>,
                   structLogs = [c, r, x] \<rparr> =
        ([StructLog.extend c \<lparr> tag_address = Address caller, tag_bytecode = None \<rparr>,
          StructLog.extend r
            \<lparr> tag_address =
                Address (''0x'' @ (case fromTop (log_stack c) 1 of
                                    None \<Rightarrow> ''undefined'' | Some w \<Rightarrow> drop 24 w)),
              tag_bytecode = None \<rparr>,
          StructLog.extend x \<lparr> tag_address = Address caller, tag_bytecode = None \<rparr>],
         None)) \<and>
   (log_op c \<in> {''CREATE'', ''CREATE2''} \<and>
    hexValue (fromTop (log_stack c) 1) = Some offset \<and>
    hexValue (fromTop (log_stack c) 2) = Some len \<and>
    take (2 * len) (drop (2 * offset) (concat (log_memory c))) \<noteq> [] \<and>
    log_op x \<notin> {''CALL'', ''CALLCODE'', ''DELEGATECALL'', ''STATICCALL'', ''CREATE'', ''CREATE2''} \<and>
    log_op y \<notin> {''CALL'', ''CALLCODE'', ''DELEGATECALL'', ''STATICCALL'', ''CREATE'', ''CREATE2''} \<and>
    log_depth x = log_depth c + 1 \<and> log_depth y = log_depth c \<longrightarrow>
      followInfo \<lparr> txHash = h, txData = \<lparr> tx_to = Address caller, tx_input = inp \<rparr>,
                   structLogs = [c, x, y] \<rparr> =
        ([StructLog.extend c \<lparr> tag_address = Address caller, tag_bytecode = None \<rparr>,
          StructLog.extend x
            \<lparr> tag_address = Undefined,
              tag_bytecode = Some (take (2 * len) (drop (2 * offset) (concat (log_memory c)))) \<rparr>,
          StructLog.extend y \<lparr> tag_address = Address caller, tag_bytecode = None \<rparr>],
         None))"
proof -
  have one: "map StructLog.truncate tagged = structLogs info"
    if "followInfo info = (tagged, None)"
    using followLoop_logs [of _ "structLogs info" tagged None] that
    by (simp add: followInfo_def)
  have two: "\<exists>stk. specStack [\<lparr> fr_address = tx_to (txData info), fr_bytecode = None \<rparr>]
                  (structLogs info) i = Some stk \<and>
               stk \<noteq> [] \<and>
               (tag_bytecode (tagged ! i), tag_address (tagged ! i)) =
                 (if fr_bytecode (last stk) \<noteq> None \<and> fr_bytecode (last stk) \<noteq> Some []
                  then (fr_bytecode (last stk), Undefined)
                  else (None, fr_address (last stk)))"
    if "followInfo info = (tagged, None)" and "i < length (structLogs info)" for i
  proof -
    from that obtain stk where
      "specStack [\<lparr> fr_address = tx_to (txData info), fr_bytecode = None \<rparr>]
         (structLogs info) i = Some stk" "stk \<noteq> []"
      "tagged ! i = tagLog (last stk) (structLogs info ! i)"
      using followLoop_stack [of _ "structLogs info" tagged i] by (auto simp: followInfo_def)
    then show ?thesis
      using tagLog_tags [of "last stk" "structLogs info ! i"] by auto
  qed
  have run: "followInfo info = (tagged, None) \<longrightarrow>
      map StructLog.truncate tagged = structLogs info \<and>
      (\<forall>i < length (structLogs info).
         \<exists>stk. specStack [\<lparr> fr_address = tx_to (txData info), fr_bytecode = None \<rparr>]
                  (structLogs info) i = Some stk \<and>
               stk \<noteq> [] \<and>
               (tag_bytecode (tagged ! i), tag_address (tagged ! i)) =
                 (if fr_bytecode (last stk) \<noteq> None \<and> fr_bytecode (last stk) \<noteq> Some []
                  then (fr_bytecode (last stk), Undefined)
                  else (None, fr_address (last stk))))"
    using one two by blast
  have call: "log_op log \<in> callFamily \<longrightarrow>
      followStep stack log next =
        Inr (if (case next of None \<Rightarrow> log_depth log | Some n \<Rightarrow> log_depth n) = log_depth log + 1
             then stack @
                    [\<lparr> fr_address =
                         Address (''0x'' @ (case fromTop (log_stack log) 1 of
                                             None \<Rightarrow> ''undefined'' | Some w \<Rightarrow> drop 24 w)),
                       fr_bytecode = None \<rparr>]
             else stack)"
    using followStep_call [of log stack "next"] by (simp only: calleeAddress_def) blast
  have create: "log_op log \<in> createFamily \<and>
    hexValue (fromTop (log_stack log) 1) = Some offset \<and>
    hexValue (fromTop (log_stack log) 2) = Some len \<longrightarrow>
      followStep stack log next =
        (if (case next of None \<Rightarrow> log_depth log | Some n \<Rightarrow> log_depth n) = log_depth log + 1
         then Inr (stack @
                    [\<lparr> fr_address = Undefined,
                       fr_bytecode =
                         Some (take (2 * len) (drop (2 * offset) (concat (log_memory log)))) \<rparr>])
         else Inl TraceInconsistency)"
    using followStep_create [of log offset len stack "next"] by blast
  have other: "log_op log \<notin> callFamily \<union> createFamily \<longrightarrow>
      followStep stack log next =
        (if (case next of None \<Rightarrow> log_depth log | Some n \<Rightarrow> log_depth n) > log_depth log
         then Inl TraceInconsistency
         else Inr (if (case next of None \<Rightarrow> log_depth log | Some n \<Rightarrow> log_depth n) < log_depth log
                   then butlast stack else stack))"
    using followStep_other [of log stack "next"] by blast
  have callRet: "log_op c \<in> callFamily \<and> log_op r \<notin> callFamily \<union> createFamily \<and>
    log_op x \<notin> callFamily \<union> createFamily \<and>
    log_depth r = log_depth c + 1 \<and> log_depth x = log_depth c \<longrightarrow>
      followInfo \<lparr> txHash = h, txData = \<lparr> tx_to = Address caller, tx_input = inp \<rparr>,
                   structLogs = [c, r, x] \<rparr> =
        ([StructLog.extend c \<lparr> tag_address = Address caller, tag_bytecode = None \<rparr>,
          StructLog.extend r
            \<lparr> tag_address =
                Address (''0x'' @ (case fromTop (log_stack c) 1 of
                                    None \<Rightarrow> ''undefined'' | Some w \<Rightarrow> drop 24 w)),
              tag_bytecode = None \<rparr>,
          StructLog.extend x \<lparr> tag_address = Address caller, tag_bytecode = None \<rparr>],
         None)"
    using followInfo_call_return [of c r x h caller inp] by (simp only: calleeAddress_def) blast
  have createRet: "log_op c \<in> createFamily \<and>
    hexValue (fromTop (log_stack c) 1) = Some offset \<and>
    hexValue (fromTop (log_stack c) 2) = Some len \<and>
    take (2 * len) (drop (2 * offset) (concat (log_memory c))) \<noteq> [] \<and>
    log_op x \<notin> callFamily \<union> createFamily \<and> log_op y \<notin> callFamily \<union> createFamily \<and>
    log_depth x = log_depth c + 1 \<and> log_depth y = log_depth c \<longrightarrow>
      followInfo \<lparr> txHash = h, txData = \<lparr> tx_to = Address caller, tx_input = inp \<rparr>,
                   structLogs = [c, x, y] \<rparr> =
        ([StructLog.extend c \<lparr> tag_address = Address caller, tag_bytecode = None \<rparr>,
          StructLog.extend x
            \<lparr> tag_address = Undefined,
              tag_bytecode = Some (take (2 * len) (drop (2 * offset) (concat (log_memory c)))) \<rparr>,
          StructLog.extend y \<lparr> tag_address = Address caller, tag_bytecode = None \<rparr>],
         None)"
    using followInfo_create_return [of c offset len x y h caller inp] by auto
  have sets: "callFamily \<union> createFamily =
      {''CALL'', ''CALLCODE'', ''DELEGATECALL'', ''STATICCALL'', ''CREATE'', ''CREATE2''}"
    by (simp add: insert_commute)
  from run call create other callRet createRet show ?thesis
    unfolding sets by (intro conjI)
qed

text \<open>
  The trace \<open>createCall\<close> runs to the end and has one tagged log for each of its eight
  logs: the factory's two logs carry its address \<open>0xaa\<close>, the constructor's logs the init
  code \<open>600a600c\<close>, the log of the contract it calls that contract's address, and the logs
  after the constructor's return the factory's address again. Its \<open>CREATE\<close> pushes the frame
  of the init code.
\<close>

theorem followInfo_frames_witness:
  "followInfo createCall = (fst (followInfo createCall), None) \<and>
   map StructLog.truncate (fst (followInfo createCall)) = structLogs createCall \<and>
   map (\<lambda>t. (tag_address t, tag_bytecode t)) (fst (followInfo createCall)) =
     [(Address ''0xaa'', None), (Address ''0xaa'', None),
      (Undefined, Some ''600a600c''), (Undefined, Some ''600a600c''),
      (Address ''0xc0ffee254729296a45a3885639ac7e10f9d54979'', None),
      (Undefined, Some ''600a600c''),
      (Address ''0xaa'', None), (Address ''0xaa'', None)] \<and>
   log_op (structLogs createCall ! 1) = ''CREATE'' \<and>
   hexValue (fromTop (log_stack (structLogs createCall ! 1)) 1) = Some 2 \<and>
   hexValue (fromTop (log_stack (structLogs createCall ! 1)) 2) = Some 4 \<and>
   followStep [\<lparr> fr_address = Address ''0xaa'', fr_bytecode = None \<rparr>]
       (structLogs createCall ! 1) (Some (structLogs createCall ! 2)) =
     Inr [\<lparr> fr_address = Address ''0xaa'', fr_bytecode = None \<rparr>,
          \<lparr> fr_address = Undefined, fr_bytecode = Some ''600a600c'' \<rparr>]"
proof -
  have run: "followInfo createCall = (fst (followInfo createCall), None)"
    and tags: "map (\<lambda>t. (tag_address t, tag_bytecode t)) (fst (followInfo createCall)) =
     [(Address ''0xaa'', None), (Address ''0xaa'', None),
      (Undefined, Some ''600a600c''), (Undefined, Some ''600a600c''),
      (Address ''0xc0ffee254729296a45a3885639ac7e10f9d54979'', None),
      (Undefined, Some ''600a600c''),
      (Address ''0xaa'', None), (Address ''0xaa'', None)]"
    by (simp_all add: createCall_def calleeWord_def followInfo_def followStep_def isCall_def
        isCreate_def nthStackBack_def parseUint_def parseAddress_def isDigit_def digitVal_def
        digitsValue_def tagLog_def Let_def StructLog.defs)
  have words: "hexValue (fromTop (log_stack (structLogs createCall ! 1)) 1) = Some 2"
    "hexValue (fromTop (log_stack (structLogs createCall ! 1)) 2) = Some 4"
    "log_op (structLogs createCall ! 1) \<in> {''CREATE'', ''CREATE2''}"
    by (simp_all add: createCall_def hexValue_def fromTop_def isDigit_def digitVal_def
        digitsValue_def)
  from followInfo_frames [of createCall "fst (followInfo createCall)"
      "structLogs createCall ! 1" "[\<lparr> fr_address = Address ''0xaa'', fr_bytecode = None \<rparr>]"
      "Some (structLogs createCall ! 2)" 2 4]
  have both: "(followInfo createCall = (fst (followInfo createCall), None) \<longrightarrow>
        map StructLog.truncate (fst (followInfo createCall)) = structLogs createCall) \<and>
      (log_op (structLogs createCall ! 1) \<in> {''CREATE'', ''CREATE2''} \<and>
       hexValue (fromTop (log_stack (structLogs createCall ! 1)) 1) = Some 2 \<and>
       hexValue (fromTop (log_stack (structLogs createCall ! 1)) 2) = Some 4 \<longrightarrow>
        followStep [\<lparr> fr_address = Address ''0xaa'', fr_bytecode = None \<rparr>]
            (structLogs createCall ! 1) (Some (structLogs createCall ! 2)) =
          (if log_depth (structLogs createCall ! 2) = log_depth (structLogs createCall ! 1) + 1
           then Inr ([\<lparr> fr_address = Address ''0xaa'', fr_bytecode = None \<rparr>] @
                  [\<lparr> fr_address = Undefined,
                     fr_bytecode =
                       Some (take (2 * 4) (drop (2 * 2)
                              (concat (log_memory (structLogs createCall ! 1))))) \<rparr>])
           else Inl TraceInconsistency))"
    by simp
  from both have "followInfo createCall = (fst (followInfo createCall), None) \<longrightarrow>
        map StructLog.truncate (fst (followInfo createCall)) = structLogs createCall"
    by (rule conjunct1)
  from this run have logs:
    "map StructLog.truncate (fst (followInfo createCall)) = structLogs createCall"
    by (rule mp)
  from both words have "followStep [\<lparr> fr_address = Address ''0xaa'', fr_bytecode = None \<rparr>]
            (structLogs createCall ! 1) (Some (structLogs createCall ! 2)) =
          (if log_depth (structLogs createCall ! 2) = log_depth (structLogs createCall ! 1) + 1
           then Inr ([\<lparr> fr_address = Address ''0xaa'', fr_bytecode = None \<rparr>] @
                  [\<lparr> fr_address = Undefined,
                     fr_bytecode =
                       Some (take (2 * 4) (drop (2 * 2)
                              (concat (log_memory (structLogs createCall ! 1))))) \<rparr>])
           else Inl TraceInconsistency)"
    by blast
  also have "\<dots> = Inr [\<lparr> fr_address = Address ''0xaa'', fr_bytecode = None \<rparr>,
          \<lparr> fr_address = Undefined, fr_bytecode = Some ''600a600c'' \<rparr>]"
    by (simp add: createCall_def)
  finally have step: "followStep [\<lparr> fr_address = Address ''0xaa'', fr_bytecode = None \<rparr>]
       (structLogs createCall ! 1) (Some (structLogs createCall ! 2)) =
     Inr [\<lparr> fr_address = Address ''0xaa'', fr_bytecode = None \<rparr>,
          \<lparr> fr_address = Undefined, fr_bytecode = Some ''600a600c'' \<rparr>]" .
  have opc: "log_op (structLogs createCall ! 1) = ''CREATE''"
    by (simp add: createCall_def)
  from run logs tags opc words(1,2) step show ?thesis
    by (intro conjI)
qed

section \<open>The creation frame\<close>

lemma followStep_parsed:
  assumes "followStep stack log next = Inr stack'" and "\<forall>fr \<in> set stack. parsedAddress (fr_address fr)"
  shows "\<forall>fr \<in> set stack'. parsedAddress (fr_address fr)"
  using assms
  by (auto simp: followStep_def Let_def parsedAddress_def parseAddress_def
      split: if_splits sum.splits dest: in_set_butlastD)

lemma tagLog_parsed:
  "parsedAddress (fr_address topFrame) \<Longrightarrow> parsedAddress (tag_address (tagLog topFrame log))"
  by (cases log) (auto simp: tagLog_def StructLog.defs parsedAddress_def split: option.splits)

lemma followLoop_parsed:
  "followLoop stack logs = (tagged, err) \<Longrightarrow>
   \<forall>fr \<in> set stack. parsedAddress (fr_address fr) \<Longrightarrow>
   \<forall>t \<in> set tagged. parsedAddress (tag_address t)"
proof (induction logs arbitrary: stack tagged err)
  case Nil
  then show ?case by simp
next
  case (Cons log rest)
  show ?case
  proof (cases "stack = []")
    case True
    with Cons.prems(1) show ?thesis by (simp add: nthStackBack_last)
  next
    case False
    then have top: "parsedAddress (fr_address (last stack))"
      using Cons.prems(2) by simp
    show ?thesis
    proof (cases "followStep stack log (case rest of [] \<Rightarrow> None | n # _ \<Rightarrow> Some n)")
      case (Inl e)
      with Cons.prems(1) False top show ?thesis
        by (auto simp: nthStackBack_last tagLog_parsed)
    next
      case (Inr stack')
      obtain tagged' err' where loop: "followLoop stack' rest = (tagged', err')"
        by (cases "followLoop stack' rest")
      from Cons.IH [OF loop followStep_parsed [OF Inr Cons.prems(2)]]
      have "\<forall>t \<in> set tagged'. parsedAddress (tag_address t)" .
      with Cons.prems(1) False top Inr loop show ?thesis
        by (auto simp: nthStackBack_last tagLog_parsed)
    qed
  qed
qed

lemma followInfo_first:
  assumes "followInfo info = (tagged, err)" and "tagged \<noteq> []"
  shows "tag_address (hd tagged) = tx_to (txData info) \<and> tag_bytecode (hd tagged) = None"
proof -
  from assms obtain log rest where logs: "structLogs info = log # rest"
    by (cases "structLogs info") (auto simp: followInfo_def)
  have "hd tagged = tagLog \<lparr> fr_address = tx_to (txData info), fr_bytecode = None \<rparr> log"
    using assms logs
    by (auto simp: followInfo_def nthStackBack_def split: sum.splits prod.splits)
  then show ?thesis
    by (cases log) (simp add: tagLog_def StructLog.defs)
qed

lemma buildLoop_keys:
  "buildLoop getCode info logs acc = Inr m \<Longrightarrow>
   \<forall>t \<in> set logs. parsedAddress (tag_address t) \<Longrightarrow>
   \<forall>k \<in> fst ` set acc. parsedKey k \<Longrightarrow>
   \<forall>k \<in> fst ` set m. parsedKey k"
proof (induction logs arbitrary: acc)
  case Nil
  then show ?case by simp
next
  case (Cons log logs)
  have upd: "\<forall>k \<in> fst ` set (AList.update a v acc). parsedKey k" if "parsedKey a" for a v
    using that Cons.prems(3) by (auto simp: dom_update [symmetric] simp del: dom_update
        simp: dom_map_of_conv_image_fst [symmetric] update_conv')
  show ?case
  proof (cases "tag_address log")
    case (Address a)
    with Cons.prems(2) have "parsedKey a"
      by (auto simp: parsedAddress_def parsedKey_def)
    with Cons Address upd show ?thesis
      by (auto split: if_splits sum.splits)
  next
    case Undefined
    have "parsedKey ''null''" by (simp add: parsedKey_def)
    with Cons Undefined upd show ?thesis
      by (auto split: option.splits)
  next
    case Null
    with Cons.prems(2) show ?thesis by (simp add: parsedAddress_def)
  qed
qed


lemma buildLoop_null:
  "buildLoop getCode info logs acc = Inr m \<Longrightarrow>
   \<forall>t \<in> set logs. parsedAddress (tag_address t) \<Longrightarrow>
   tx_input (txData info) = Some input \<Longrightarrow>
   (\<exists>t \<in> set logs. tag_address t = Undefined) \<or> map_of acc ''null'' = Some (drop 2 input) \<Longrightarrow>
   map_of m ''null'' = Some (drop 2 input)"
proof (induction logs arbitrary: acc)
  case Nil
  then show ?case by simp
next
  case (Cons log logs)
  show ?case
  proof (cases "tag_address log")
    case (Address a)
    with Cons.prems(2) have "a \<noteq> ''null''"
      by (auto simp: parsedAddress_def)
    then have keep: "map_of (AList.update a v acc) ''null'' = map_of acc ''null''" for v
      by (simp add: update_conv')
    from Cons.prems(1) Address obtain acc' where
      run: "buildLoop getCode info logs acc' = Inr m"
      and acc': "map_of acc' ''null'' = map_of acc ''null''"
      using keep by (auto split: if_splits sum.splits)
    from Cons.prems(4) Address acc'
    have "(\<exists>t \<in> set logs. tag_address t = Undefined) \<or> map_of acc' ''null'' = Some (drop 2 input)"
      by auto
    from Cons.IH [OF run _ Cons.prems(3) this] Cons.prems(2) show ?thesis by simp
  next
    case Undefined
    with Cons.prems(1,3) have
      run: "buildLoop getCode info logs (AList.update ''null'' (drop 2 input) acc) = Inr m"
      by simp
    have "map_of (AList.update ''null'' (drop 2 input) acc) ''null'' = Some (drop 2 input)"
      by (simp add: update_conv')
    then have "(\<exists>t \<in> set logs. tag_address t = Undefined) \<or>
        map_of (AList.update ''null'' (drop 2 input) acc) ''null'' = Some (drop 2 input)"
      by simp
    from Cons.IH [OF run _ Cons.prems(3) this] Cons.prems(2) show ?thesis by simp
  next
    case Null
    with Cons.prems(2) show ?thesis by (simp add: parsedAddress_def)
  qed
qed

lemma buildLoop_input:
  "buildLoop getCode info logs acc = Inr m \<Longrightarrow> \<exists>t \<in> set logs. tag_address t = Undefined \<Longrightarrow>
   \<exists>input. tx_input (txData info) = Some input"
proof (induction logs arbitrary: acc)
  case Nil
  then show ?case by simp
next
  case (Cons log logs)
  then show ?case
    by (cases "tag_address log") (auto split: if_splits sum.splits option.splits)
qed

lemma buildLoop_distinct:
  "buildLoop getCode info logs acc = Inr m \<Longrightarrow> distinct (map fst acc) \<Longrightarrow> distinct (map fst m)"
proof (induction logs arbitrary: acc)
  case Nil
  then show ?case by simp
next
  case (Cons log logs)
  then show ?case
    by (cases "tag_address log") (auto split: if_splits sum.splits option.splits simp: distinct_update)
qed

lemma toLowerCase_0x: "take 2 a = ''0x'' \<Longrightarrow> take 2 (toLowerCase a) = ''0x''"
proof -
  assume a: "take 2 a = ''0x''"
  then obtain rest where "a = CHR ''0'' # CHR ''x'' # rest"
    by (cases a; cases "tl a") auto
  then show ?thesis by (simp add: toLowerCase_def)
qed

lemma toLowerCase_null: "toLowerCase ''null'' = ''null''"
  by (simp add: toLowerCase_def)

lemma parsedKey_lower:
  assumes "parsedKey a"
  shows "toLowerCase a \<noteq> ''undefined''" and "toLowerCase a = ''null'' \<Longrightarrow> a = ''null''"
proof -
  from assms consider "a = ''null''" | "take 2 a = ''0x''"
    by (auto simp: parsedKey_def)
  then show "toLowerCase a \<noteq> ''undefined''"
  proof cases
    case 1
    then show ?thesis by (simp add: toLowerCase_null)
  next
    case 2
    from toLowerCase_0x [OF this] show ?thesis by auto
  qed
  assume n: "toLowerCase a = ''null''"
  from assms consider "a = ''null''" | "take 2 a = ''0x''"
    by (auto simp: parsedKey_def)
  then show "a = ''null''"
  proof cases
    case 1
    then show ?thesis .
  next
    case 2
    from toLowerCase_0x [OF this] n show ?thesis by auto
  qed
qed

lemma loadAddresses_Cons:
  "loadAddresses st ((a, c) # m) =
     loadAddresses (st \<lparr> addressToBytecodes := (addressToBytecodes st)(toLowerCase a \<mapsto> c) \<rparr>) m"
  by (simp add: loadAddresses_def)

lemma loadAddresses_other:
  "\<forall>a \<in> fst ` set m. toLowerCase a \<noteq> k \<Longrightarrow>
     addressToBytecodes (loadAddresses st m) k = addressToBytecodes st k"
proof (induction m arbitrary: st)
  case Nil
  then show ?case by (simp add: loadAddresses_def)
next
  case (Cons p m)
  obtain a c where p: "p = (a, c)" by (cases p)
  with Cons show ?case by (auto simp: loadAddresses_Cons)
qed

lemma loadAddresses_found:
  "distinct (map fst m) \<Longrightarrow> map_of m k = Some v \<Longrightarrow>
   \<forall>a \<in> fst ` set m. toLowerCase a = toLowerCase k \<longrightarrow> a = k \<Longrightarrow>
     addressToBytecodes (loadAddresses st m) (toLowerCase k) = Some v"
proof (induction m arbitrary: st)
  case Nil
  then show ?case by simp
next
  case (Cons p m)
  obtain a c where p: "p = (a, c)" by (cases p)
  show ?case
  proof (cases "a = k")
    case True
    with Cons.prems p have v: "c = v" and "k \<notin> fst ` set m" by auto
    with Cons.prems(3) p have "\<forall>a' \<in> fst ` set m. toLowerCase a' \<noteq> toLowerCase k"
      by auto
    from loadAddresses_other [OF this] show ?thesis
      using p True v by (simp add: loadAddresses_Cons)
  next
    case False
    with Cons p show ?thesis by (simp add: loadAddresses_Cons)
  qed
qed


lemma reportLoop_unknown_address:
  "logBytecode st log = Inl UnknownAddress \<Longrightarrow>
     reportLoop p2s (log # logs) (r, st) = Inl UnknownAddress"
  by (simp add: reportLog_def)

text \<open>
  C10. A contract creation has no \<open>to\<close>: the first frame has the address \<open>undefined\<close> and
  so has the first tagged log. \<open>buildAddressToBytecodes\<close> files the transaction input,
  without its \<open>0x\<close>, under the string key \<open>"null"\<close>, and \<open>loadAddresses\<close> keeps that key.
  \<open>addressToBytecode(undefined)\<close> reads the key \<open>"undefined"\<close>, which no trace of such a
  transaction fills, and throws; \<open>report\<close> on the logs of the trace throws the same error
  at the first log, whatever the syntax tables and the report to continue.
\<close>

theorem creation_frame_unknown_address:
  assumes "tx_to (txData info) = Undefined"
    and "followInfo info = (logs, err)" and "logs \<noteq> []"
    and "buildAddressToBytecodes getCode info logs = Inr m"
    and "addressToBytecodes st ''undefined'' = None"
  shows "\<exists>input. tx_input (txData info) = Some input \<and>
     map_of m ''null'' = Some (drop 2 input) \<and>
     addressToBytecodes (loadAddresses st m) ''null'' = Some (drop 2 input) \<and>
     addressToBytecode (loadAddresses st m) Undefined = Inl UnknownAddress \<and>
     tag_address (hd logs) = Undefined \<and> tag_bytecode (hd logs) = None \<and>
     report \<lparr> sources = loadAddresses st m, pathToSyntax = p2s \<rparr> logs continueReport =
       Inl UnknownAddress"
proof -
  have parsed: "\<forall>t \<in> set logs. parsedAddress (tag_address t)"
    using followLoop_parsed [of _ "structLogs info" logs err] assms(1,2)
    by (simp add: followInfo_def parsedAddress_def)
  from followInfo_first [OF assms(2,3)] assms(1)
  have first: "tag_address (hd logs) = Undefined" "tag_bytecode (hd logs) = None"
    by simp_all
  with assms(3) have some: "\<exists>t \<in> set logs. tag_address t = Undefined"
    by (metis hd_in_set)
  from assms(4) have run: "buildLoop getCode info logs [] = Inr m"
    by (simp add: buildAddressToBytecodes_def)
  from buildLoop_input [OF run some] obtain input where
    input: "tx_input (txData info) = Some input" by blast
  from buildLoop_null [OF run parsed input] some
  have null: "map_of m ''null'' = Some (drop 2 input)" by blast
  from buildLoop_keys [OF run parsed] have keys: "\<forall>k \<in> fst ` set m. parsedKey k" by simp
  from buildLoop_distinct [OF run] have dist: "distinct (map fst m)" by simp
  have "\<forall>a \<in> fst ` set m. toLowerCase a = toLowerCase ''null'' \<longrightarrow> a = ''null''"
    using keys parsedKey_lower(2) by (simp add: toLowerCase_null)
  from loadAddresses_found [OF dist null this]
  have loaded: "addressToBytecodes (loadAddresses st m) ''null'' = Some (drop 2 input)"
    by (simp add: toLowerCase_null)
  have "\<forall>a \<in> fst ` set m. toLowerCase a \<noteq> ''undefined''"
    using keys parsedKey_lower(1) by blast
  from loadAddresses_other [OF this] assms(5)
  have "addressToBytecodes (loadAddresses st m) ''undefined'' = None" by simp
  then have unknown: "addressToBytecode (loadAddresses st m) Undefined = Inl UnknownAddress"
    by (simp add: addressToBytecode_def addressKey_def)
  obtain t ts where logs: "logs = t # ts"
    using assms(3) by (cases logs) auto
  with first unknown have "logBytecode (loadAddresses st m) t = Inl UnknownAddress"
    by (simp add: logBytecode_def)
  from reportLoop_unknown_address [OF this]
  have "report \<lparr> sources = loadAddresses st m, pathToSyntax = p2s \<rparr> logs continueReport =
       Inl UnknownAddress"
    by (simp add: report_def logs)
  with input null loaded unknown first show ?thesis by blast
qed

text \<open>
  The creation \<open>creationTx\<close> on sources that know no address yet: the input \<open>600a600c\<close> is
  filed under \<open>"null"\<close> and the address \<open>undefined\<close> is unknown.
\<close>

theorem creation_frame_unknown_address_witness:
  "tx_to (txData creationTx) = Undefined \<and>
   fst (followInfo creationTx) \<noteq> [] \<and>
   buildAddressToBytecodes (\<lambda>a. Inr ''0x'') creationTx (fst (followInfo creationTx)) =
     Inr [(''null'', ''600a600c'')] \<and>
   addressToBytecodes noSources ''undefined'' = None \<and>
   addressToBytecodes (loadAddresses noSources [(''null'', ''600a600c'')]) ''null'' = Some ''600a600c'' \<and>
   addressToBytecode (loadAddresses noSources [(''null'', ''600a600c'')]) Undefined = Inl UnknownAddress \<and>
   report \<lparr> sources = loadAddresses noSources [(''null'', ''600a600c'')], pathToSyntax = [] \<rparr>
     (fst (followInfo creationTx)) None = Inl UnknownAddress"
proof -
  have a: "tx_to (txData creationTx) = Undefined" by (simp add: creationTx_def)
  have b: "followInfo creationTx = (fst (followInfo creationTx), snd (followInfo creationTx))"
    by simp
  have c: "fst (followInfo creationTx) \<noteq> []"
    by (simp add: creationTx_def followInfo_def nthStackBack_def followStep_def isCall_def
        isCreate_def Let_def)
  have d: "buildAddressToBytecodes (\<lambda>a. Inr ''0x'') creationTx (fst (followInfo creationTx)) =
     Inr [(''null'', ''600a600c'')]"
    by (simp add: creationTx_def followInfo_def nthStackBack_def followStep_def isCall_def
        isCreate_def Let_def buildAddressToBytecodes_def tagLog_def StructLog.defs)
  have e: "addressToBytecodes noSources ''undefined'' = None" by (simp add: noSources_def)
  from creation_frame_unknown_address [OF a b c d e, of "[]" None] a c d e
  show ?thesis by auto
qed

text \<open>
  When the provider answers \<open>to: null\<close> instead, the lookup key is \<open>"null"\<close> and the input
  filed by \<open>buildAddressToBytecodes\<close> is found.
\<close>

lemma addressToBytecode_null:
  "addressToBytecodes st ''null'' = Some code \<Longrightarrow> addressToBytecode st Null = Inr code"
  by (simp add: addressToBytecode_def addressKey_def)

section \<open>Properties of filteredReport\<close>

lemma startsWithHash_take: "startsWithHash p \<longleftrightarrow> take 1 p = ''#''"
  by (cases p) (simp_all add: startsWithHash_def)

lemma kept_code: "kept p \<longleftrightarrow> \<not> startsWithHash p \<and> \<not> includesColon p"
  by (simp add: kept_def startsWithHash_take includesColon_def)

lemma significantFeature_hasEntry:
  "hasEntry syn feature \<Longrightarrow> significantFeature syn feature = Inr (significant syn feature)"
  by (auto simp: hasEntry_def significantFeature_def significant_def
      split: Feature.splits option.splits)

lemma firstLine_Some: "firstLine fs = Some n \<longleftrightarrow> (\<exists>rest. fs = Line n # rest)"
  by (auto simp: firstLine_def split: list.splits Feature.splits)

lemma anySignificant_known:
  "list_all (hasEntry syn) fs \<Longrightarrow> anySignificant syn fs = Inr (list_ex (significant syn) fs)"
  by (induction fs) (simp_all add: significantFeature_hasEntry)

lemma filterLines_known:
  "list_all (list_all (hasEntry syn)) fss \<Longrightarrow>
     \<exists>newL. filterLines syn counts fss acc = Inr newL \<and>
       (\<forall>key. newL key =
          (if list_ex (significantByte syn key) fss then Some (lineCount counts key) else acc key))"
proof (induction fss arbitrary: acc)
  case Nil
  then show ?case by simp
next
  case (Cons fs fss)
  from Cons.prems have fs: "anySignificant syn fs = Inr (list_ex (significant syn) fs)"
    and rest: "list_all (list_all (hasEntry syn)) fss"
    by (simp_all add: anySignificant_known)
  let ?acc = "if list_ex (significant syn) fs
              then acc(firstLine fs \<mapsto> lineCount counts (firstLine fs)) else acc"
  from Cons.IH [OF rest, of ?acc] obtain newL where
    run: "filterLines syn counts fss ?acc = Inr newL"
    and val: "\<forall>key. newL key =
          (if list_ex (significantByte syn key) fss then Some (lineCount counts key) else ?acc key)"
    by blast
  have "filterLines syn counts (fs # fss) acc = Inr newL"
    using fs run by simp
  moreover have "newL key =
          (if list_ex (significantByte syn key) (fs # fss) then Some (lineCount counts key)
           else acc key)" for key
    using val by (auto simp: significantByte_def)
  ultimately show ?case by blast
qed

lemma filterLines_rewrite:
  assumes "knownFeatures syn"
  shows "filterLines syn counts (features syn) Map.empty = Inr (rewriteLines syn counts)"
proof -
  from filterLines_known [of syn "features syn" counts Map.empty] assms
  obtain newL where
    run: "filterLines syn counts (features syn) Map.empty = Inr newL"
    and val: "\<forall>key. newL key =
          (if list_ex (significantByte syn key) (features syn) then Some (lineCount counts key)
           else None)"
    by (auto simp: knownFeatures_def)
  from val have "newL = rewriteLines syn counts"
    by (auto simp: rewriteLines_def)
  with run show ?thesis by simp
qed

lemma filterLoop_filterable:
  assumes "distinct (map fst r)"
    and "list_all (\<lambda>(p, stats). if kept p
                  then (case map_of p2s p of None \<Rightarrow> False | Some syn \<Rightarrow> knownFeatures syn)
                  else True) r"
  shows "\<exists>out. filterLoop p2s r filtered = Inr out \<and>
     (\<forall>p. map_of out p =
        (case map_of r p of
           None \<Rightarrow> map_of filtered p
         | Some stats \<Rightarrow>
             if kept p then Some (withLines stats (rewriteLines (the (map_of p2s p)) (s_l stats)))
             else map_of filtered p))"
  using assms
proof (induction r arbitrary: filtered)
  case Nil
  then show ?case by simp
next
  case (Cons entry r)
  obtain p0 stats0 where entry: "entry = (p0, stats0)" by (cases entry)
  from Cons.prems entry have fresh: "map_of r p0 = None" and dist: "distinct (map fst r)"
    and rest: "list_all (\<lambda>(p, stats). if kept p
                  then (case map_of p2s p of None \<Rightarrow> False | Some syn \<Rightarrow> knownFeatures syn)
                  else True) r"
    by (auto simp: map_of_eq_None_iff)
  show ?case
  proof (cases "kept p0")
    case False
    then have skip: "filterLoop p2s (entry # r) filtered = filterLoop p2s r filtered"
      by (auto simp: entry kept_code)
    from Cons.IH [OF dist rest, of filtered] obtain out where
      out: "filterLoop p2s r filtered = Inr out"
        "\<forall>p. map_of out p =
          (case map_of r p of
             None \<Rightarrow> map_of filtered p
           | Some stats \<Rightarrow>
               if kept p then Some (withLines stats (rewriteLines (the (map_of p2s p)) (s_l stats)))
               else map_of filtered p)"
      by blast
    have "map_of out p =
        (case map_of (entry # r) p of
           None \<Rightarrow> map_of filtered p
         | Some stats \<Rightarrow>
             if kept p then Some (withLines stats (rewriteLines (the (map_of p2s p)) (s_l stats)))
             else map_of filtered p)" for p
      using out(2) False fresh by (cases "p = p0") (simp_all add: entry)
    with skip out(1) show ?thesis by auto
  next
    case True
    with Cons.prems(2) entry obtain syn where
      syn: "map_of p2s p0 = Some syn" "knownFeatures syn"
      by (auto split: option.splits)
    let ?new = "withLines stats0 (rewriteLines syn (s_l stats0))"
    from True have code: "\<not> startsWithHash p0" "\<not> includesColon p0"
      by (simp_all add: kept_code)
    have step: "filterLoop p2s (entry # r) filtered =
        filterLoop p2s r (AList.update p0 ?new filtered)"
      using code syn filterLines_rewrite [OF syn(2), of "s_l stats0"]
      by (simp add: entry withLines_def)
    from Cons.IH [OF dist rest, of "AList.update p0 ?new filtered"] obtain out where
      out: "filterLoop p2s r (AList.update p0 ?new filtered) = Inr out"
        "\<forall>p. map_of out p =
          (case map_of r p of
             None \<Rightarrow> map_of (AList.update p0 ?new filtered) p
           | Some stats \<Rightarrow>
               if kept p then Some (withLines stats (rewriteLines (the (map_of p2s p)) (s_l stats)))
               else map_of (AList.update p0 ?new filtered) p)"
      by blast
    have "map_of out p =
        (case map_of (entry # r) p of
           None \<Rightarrow> map_of filtered p
         | Some stats \<Rightarrow>
             if kept p then Some (withLines stats (rewriteLines (the (map_of p2s p)) (s_l stats)))
             else map_of filtered p)" for p
    proof (cases "p = p0")
      case True
      with out(2) fresh syn \<open>kept p0\<close> show ?thesis
        by (simp add: entry update_conv')
    next
      case False
      with out(2) show ?thesis
        by (simp add: entry update_conv' split: option.splits)
    qed
    with step out(1) show ?thesis by auto
  qed
qed

text \<open>
  C9. For every report that can be filtered (distinct paths, and for every path that
  neither starts with \<open>#\<close> nor contains \<open>:\<close> a syntax table in which every function and
  statement feature has its map entry), \<open>filteredReport\<close> returns a report. Its paths are
  exactly the paths of the report that do not start with \<open>#\<close> and do not contain \<open>:\<close>. For
  each of them the new \<open>l\<close> has an entry for the line \<open>n\<close> exactly when some source byte whose
  first feature is the line feature of \<open>n\<close> has a branch, a function whose \<open>fnMap\<close> entry is
  not marked \<open>skip\<close>, or a statement whose \<open>statementMap\<close> entry is not marked \<open>skip\<close>; the
  entry is the count the report has for the line; and \<open>path\<close>, \<open>branchMap\<close>, \<open>fnMap\<close>,
  \<open>statementMap\<close>, \<open>b\<close>, \<open>f\<close> and \<open>s\<close> are those of the report.
\<close>

theorem filteredReport_filter:
  assumes "filterable (pathToSyntax cov) r"
  shows "\<exists>out. filteredReport cov r = Inr out \<and>
     (\<forall>p \<in> fst ` set out. take 1 p \<noteq> ''#'' \<and> CHR '':'' \<notin> set p) \<and>
     (\<forall>p. p \<in> fst ` set out \<longleftrightarrow>
          p \<in> fst ` set r \<and> take 1 p \<noteq> ''#'' \<and> CHR '':'' \<notin> set p) \<and>
     (\<forall>p stats. map_of r p = Some stats \<and> take 1 p \<noteq> ''#'' \<and> CHR '':'' \<notin> set p \<longrightarrow>
        (\<exists>syn entry. map_of (pathToSyntax cov) p = Some syn \<and> map_of out p = Some entry \<and>
           s_path entry = s_path stats \<and> s_branchMap entry = s_branchMap stats \<and>
           s_fnMap entry = s_fnMap stats \<and> s_statementMap entry = s_statementMap stats \<and>
           s_b entry = s_b stats \<and> s_f entry = s_f stats \<and> s_s entry = s_s stats \<and>
           (\<forall>n. s_l entry (Some n) \<noteq> None \<longleftrightarrow>
                (\<exists>fs \<in> set (features syn). (\<exists>rest. fs = Line n # rest) \<and>
                   (\<exists>feature \<in> set fs.
                      case feature of
                        Line m \<Rightarrow> False
                      | Branch k alt \<Rightarrow> True
                      | Fn k \<Rightarrow> (\<exists>e. map_of (fnMap syn) k = Some e \<and> \<not> fn_skip e)
                      | Statement k \<Rightarrow>
                          (\<exists>e. map_of (statementMap syn) k = Some e \<and> \<not> stmt_skip e)))) \<and>
           (\<forall>n. s_l entry (Some n) \<noteq> None \<longrightarrow> s_l entry (Some n) = Some (s_l stats n))))"
proof -
  have sig: "significant syn feature \<longleftrightarrow>
      (case feature of
         Line m \<Rightarrow> False
       | Branch k alt \<Rightarrow> True
       | Fn k \<Rightarrow> (\<exists>e. map_of (fnMap syn) k = Some e \<and> \<not> fn_skip e)
       | Statement k \<Rightarrow> (\<exists>e. map_of (statementMap syn) k = Some e \<and> \<not> stmt_skip e))"
    for syn feature
    by (auto simp: significant_def split: Feature.splits option.splits)
  from assms have dist: "distinct (map fst r)"
    and known: "list_all (\<lambda>(p, stats). if kept p
                  then (case map_of (pathToSyntax cov) p of None \<Rightarrow> False
                        | Some syn \<Rightarrow> knownFeatures syn)
                  else True) r"
    by (simp_all add: filterable_def)
  from filterLoop_filterable [OF dist known, of "[]"] obtain out where
    run: "filteredReport cov r = Inr out"
    and val0: "\<forall>p. map_of out p =
        (case map_of r p of
           None \<Rightarrow> map_of [] p
         | Some stats \<Rightarrow>
             if kept p
             then Some (withLines stats (rewriteLines (the (map_of (pathToSyntax cov) p)) (s_l stats)))
             else map_of [] p)"
    unfolding filteredReport_def by blast
  have val: "map_of out p =
        (case map_of r p of
           None \<Rightarrow> None
         | Some stats \<Rightarrow>
             if kept p
             then Some (withLines stats (rewriteLines (the (map_of (pathToSyntax cov) p)) (s_l stats)))
             else None)" for p
    using val0 [rule_format, of p] by (simp split: option.splits)
  have keys: "p \<in> fst ` set out \<longleftrightarrow> p \<in> fst ` set r \<and> kept p" for p
  proof -
    have "p \<in> fst ` set out \<longleftrightarrow> map_of out p \<noteq> None"
      by (simp add: map_of_eq_None_iff)
    also have "\<dots> \<longleftrightarrow> map_of r p \<noteq> None \<and> kept p"
      using val by (auto split: option.splits)
    also have "\<dots> \<longleftrightarrow> p \<in> fst ` set r \<and> kept p"
      by (simp add: map_of_eq_None_iff)
    finally show ?thesis .
  qed
  have entry: "\<exists>syn entry. map_of (pathToSyntax cov) p = Some syn \<and> map_of out p = Some entry \<and>
           s_path entry = s_path stats \<and> s_branchMap entry = s_branchMap stats \<and>
           s_fnMap entry = s_fnMap stats \<and> s_statementMap entry = s_statementMap stats \<and>
           s_b entry = s_b stats \<and> s_f entry = s_f stats \<and> s_s entry = s_s stats \<and>
           (\<forall>n. s_l entry (Some n) \<noteq> None \<longleftrightarrow>
                (\<exists>fs \<in> set (features syn). (\<exists>rest. fs = Line n # rest) \<and>
                   (\<exists>feature \<in> set fs. significant syn feature))) \<and>
           (\<forall>n. s_l entry (Some n) \<noteq> None \<longrightarrow> s_l entry (Some n) = Some (s_l stats n))"
    if "map_of r p = Some stats" and "kept p" for p stats
  proof -
    from that(1) have "(p, stats) \<in> set r" by (rule map_of_SomeD)
    with known that(2) obtain syn where syn: "map_of (pathToSyntax cov) p = Some syn"
      by (auto simp: list_all_iff split: option.splits)
    let ?entry = "withLines stats (rewriteLines syn (s_l stats))"
    from val that syn have out: "map_of out p = Some ?entry" by simp
    have "s_l ?entry (Some n) \<noteq> None \<longleftrightarrow>
        (\<exists>fs \<in> set (features syn). (\<exists>rest. fs = Line n # rest) \<and>
           (\<exists>feature \<in> set fs. significant syn feature))" for n
      by (simp add: withLines_def rewriteLines_def significantByte_def list_ex_iff
          firstLine_Some)
    moreover have "s_l ?entry (Some n) \<noteq> None \<longrightarrow> s_l ?entry (Some n) = Some (s_l stats n)" for n
      by (simp add: withLines_def rewriteLines_def lineCount_def)
    ultimately show ?thesis
      using syn out by (auto simp: withLines_def)
  qed
  from keys have "\<forall>p \<in> fst ` set out. kept p"
    by simp
  with run keys entry show ?thesis
    unfolding kept_def sig by blast
qed

text \<open>
  The report \<open>fourPaths\<close>: the paths \<open>#utility.yul\<close> and \<open>A.sol:0\<close> are left out. In \<open>A.sol\<close>
  the lines 2, 4 and 6 get an entry, with the counts 5 and 1 of the report and, for line 6,
  which the report does not count, \<open>undefined\<close>; the lines 1, 3 and 5 get none, and the
  other counters are copied. In \<open>B.sol\<close> line 1 is kept and line 2 is not.
\<close>

theorem filteredReport_filter_witness:
  "filterable (pathToSyntax fourPathsCoverage) fourPaths \<and>
   (case filteredReport fourPathsCoverage fourPaths of
      Inl e \<Rightarrow> False
    | Inr out \<Rightarrow>
        map fst out = [''A.sol'', ''B.sol''] \<and>
        map_option (\<lambda>entry. map (s_l entry) [Some 1, Some 2, Some 3, Some 4, Some 5, Some 6, Some 7])
            (map_of out ''A.sol'') =
          Some [None, Some (Some (Num 5)), None, Some (Some (Num 1)), None, Some None, None] \<and>
        map_option (\<lambda>entry. (s_path entry, s_fnMap entry = fnMap sixLines,
                      s_statementMap entry = statementMap sixLines,
                      s_branchMap entry = branchMap sixLines,
                      map (s_f entry) [0, 1, 2], map (s_s entry) [0, 1, 2],
                      map_option (\<lambda>alts. map alts [0, 1, 2]) (s_b entry 0)))
            (map_of out ''A.sol'') =
          Some (''A.sol'', True, True, True, [Some (Num 5), Some (Num 0), None],
                [Some (Num 3), Some (Num 0), None], Some [Some (Num 0), Some (Num 1), None]) \<and>
        map_option (\<lambda>entry. map (s_l entry) [Some 1, Some 2]) (map_of out ''B.sol'') =
          Some [Some (Some (Num 0)), None])"
proof -
  have k: "\<not> kept ''#utility.yul''" "kept ''A.sol''" "\<not> kept ''A.sol:0''" "kept ''B.sol''"
    by (simp_all add: kept_def)
  have known: "knownFeatures sixLines" "knownFeatures twoFunctions"
    by (simp_all add: knownFeatures_def sixLines_def twoFunctions_def hasEntry_def)
  have ok: "filterable (pathToSyntax fourPathsCoverage) fourPaths"
    by (simp add: filterable_def fourPaths_def fourPathsCoverage_def k known)
  from filteredReport_filter [OF ok]
  have returns: "\<exists>out. filteredReport fourPathsCoverage fourPaths = Inr out"
    by (rule exE) (rule exI, erule conjunct1)
  have six: "filterLines sixLines counts (features sixLines) Map.empty =
      Inr [Some 2 \<mapsto> counts 2, Some 4 \<mapsto> counts 4, Some 6 \<mapsto> counts 6]" for counts
    by (simp add: sixLines_def significantFeature_def firstLine_def lineCount_def)
  have two: "filterLines twoFunctions counts (features twoFunctions) Map.empty =
      Inr [Some 1 \<mapsto> counts 1]" for counts
    by (simp add: twoFunctions_def significantFeature_def firstLine_def lineCount_def)
  have val: "filteredReport fourPathsCoverage fourPaths =
      Inr [(''A.sol'', withLines (sixLinesStats ''A.sol'')
                         [Some 2 \<mapsto> s_l (sixLinesStats ''A.sol'') 2,
                          Some 4 \<mapsto> s_l (sixLinesStats ''A.sol'') 4,
                          Some 6 \<mapsto> s_l (sixLinesStats ''A.sol'') 6]),
           (''B.sol'', withLines (freshStats ''B.sol'' twoFunctions)
                         [Some 1 \<mapsto> s_l (freshStats ''B.sol'' twoFunctions) 1])]"
    by (simp add: filteredReport_def fourPaths_def fourPathsCoverage_def six two withLines_def
        startsWithHash_def includesColon_def)
  have zero: "s_l (freshStats ''B.sol'' twoFunctions) 1 = Some (Num 0)"
    by (simp add: freshStats_def zeros_def twoFunctions_def)
  have "case filteredReport fourPathsCoverage fourPaths of
      Inl e \<Rightarrow> False
    | Inr out \<Rightarrow>
        map fst out = [''A.sol'', ''B.sol''] \<and>
        map_option (\<lambda>entry. map (s_l entry) [Some 1, Some 2, Some 3, Some 4, Some 5, Some 6, Some 7])
            (map_of out ''A.sol'') =
          Some [None, Some (Some (Num 5)), None, Some (Some (Num 1)), None, Some None, None] \<and>
        map_option (\<lambda>entry. (s_path entry, s_fnMap entry = fnMap sixLines,
                      s_statementMap entry = statementMap sixLines,
                      s_branchMap entry = branchMap sixLines,
                      map (s_f entry) [0, 1, 2], map (s_s entry) [0, 1, 2],
                      map_option (\<lambda>alts. map alts [0, 1, 2]) (s_b entry 0)))
            (map_of out ''A.sol'') =
          Some (''A.sol'', True, True, True, [Some (Num 5), Some (Num 0), None],
                [Some (Num 3), Some (Num 0), None], Some [Some (Num 0), Some (Num 1), None]) \<and>
        map_option (\<lambda>entry. map (s_l entry) [Some 1, Some 2]) (map_of out ''B.sol'') =
          Some [Some (Some (Num 0)), None]"
    unfolding val using zero by (simp add: withLines_def sixLinesStats_def)
  with ok returns show ?thesis by simp
qed

text \<open>
  C6. The file has one line, so the fresh report counts lines in \<open>[0]\<close>, an array with
  the index 0 only, while the line of the byte is 1. The first hit increments the missing
  \<open>l[1]\<close> to \<open>NaN\<close>, and a second call with the same log leaves \<open>NaN\<close>: the counter of the
  line is neither doubled nor comparable. The statement counter goes from 1 to 2.
\<close>

theorem report_twice_last_line:
  "case report oneLineCoverage [stopLog] None of
     Inl e \<Rightarrow> False
   | Inr (r1, cov1) \<Rightarrow>
       (case report cov1 [stopLog] (Some r1) of
          Inl e \<Rightarrow> False
        | Inr (r2, cov2) \<Rightarrow>
            map_option (\<lambda>stats. (s_l stats 0, s_l stats 1, s_s stats 0)) (map_of (freshReport oneLineCoverage) ''A.sol'') =
              Some (Some (Num 0), None, Some (Num 0)) \<and>
            map_option (\<lambda>stats. (s_l stats 0, s_l stats 1, s_s stats 0)) (map_of r1 ''A.sol'') =
              Some (Some (Num 0), Some NaN, Some (Num 1)) \<and>
            map_option (\<lambda>stats. (s_l stats 0, s_l stats 1, s_s stats 0)) (map_of r2 ''A.sol'') =
              Some (Some (Num 0), Some NaN, Some (Num 2)))"
  by (simp add: report_defs parse_defs oneLineCoverage_def stopLog_def oneLine_def
      compilerSource_def Let_def eval_nat_numeral)

text \<open>
  The model agrees with the assertions of the repository's test: on the constructor code
  \<open>pcToInstructionIndex(18)\<close> is 10 and \<open>instructionIndexToRange(5)\<close> is
  \<open>{start: 155, length: 997, index: 1}\<close>; on the runtime code \<open>pcToInstructionIndex(183)\<close>
  is 143 and \<open>instructionIndexToRange(7)\<close> is the same range. The byte 183 of the runtime
  code is past its 92 decoded bytes: the test itself reads an entry that only the bound
  on the hex length creates.
\<close>

lemma parse_constructorCode:
  "pcToInstructionIndex (parse constructorCode [] None) 18 = Inr 10 \<and>
   instructionIndexToRange (parse constructorCode [] None) 5 =
     Inr \<lparr> r_start = Num 155, r_length = Num 997, r_index = Num 1 \<rparr>"
  by code_simp

lemma parse_runtimeCode:
  "pcToInstructionIndex (parse runtimeCode [] None) 183 = Inr 143 \<and>
   instructionIndexToRange (parse runtimeCode [] None) 7 =
     Inr \<lparr> r_start = Num 155, r_length = Num 997, r_index = Num 1 \<rparr> \<and>
   length (hexDecode (co_object runtimeCode)) = 92"
  by code_simp

end
